theory Spec2Isabelle
  imports Main "HOL-Library.Word" "HOL-Library.Signed_Division"
begin

unbundle bit_operations_syntax

section \<open>Data model of \<open>src/pos/kernel.cpp\<close>\<close>

text \<open>
  Machine integers keep their widths: \<open>uint32_t\<close> and \<open>int\<close> are \<open>32 word\<close>
  (read with \<open>unat\<close>/\<open>uint\<close> or \<open>sint\<close> as the C++ type says), \<open>int64_t\<close> and
  \<open>CAmount\<close> are \<open>64 word\<close>, \<open>uint256\<close> and \<open>arith_uint256\<close> are \<open>256 word\<close>
  (the number whose little-endian bytes are the blob). A script is its byte string.
\<close>

type_synonym u8 = "8 word"
type_synonym u32 = "32 word"
type_synonym i64 = "64 word"
type_synonym u256 = "256 word"
type_synonym CScript = "u8 list"

record COutPoint =
  hash :: u256
  n :: u32

record CTxOut =
  nValue :: i64
  scriptPubKey :: CScript

text \<open>
  Modelled from the spec: the output type enumeration is declared outside
  \<open>kernel.cpp\<close>. The spec calls it a small enum of which only Standard is
  kernel-eligible; \<open>kernel.cpp\<close> names \<open>OUTPUT_STANDARD\<close> and \<open>OUTPUT_DATA\<close>, every
  other enumerator is \<open>OUTPUT_OTHER\<close>.
\<close>

datatype OutputTypes = OUTPUT_STANDARD | OUTPUT_DATA | OUTPUT_OTHER

record Coin =
  out :: CTxOut
  nType :: OutputTypes
  nHeight :: u32

record SpentCoin =
  coin :: Coin
  spent_height :: u32

text \<open>The fields of \<open>CBlockIndex\<close> that \<open>kernel.cpp\<close> reads (\<open>nHeight\<close> is an \<open>int\<close>).\<close>

record CBlockIndex =
  bnStakeModifier :: u256
  idx_nHeight :: u32
  idx_nTime :: u32

record CTxIn =
  prevout :: COutPoint
  scriptSig :: CScript
  scriptWitness :: "u8 list list"

text \<open>
  An output of the transaction (\<open>CTxOutBase\<close>): its type tag, the script pointer of
  \<open>GetPScriptPubKey\<close> (\<open>None\<close> is the null pointer) and the value of \<open>GetValue\<close>.
\<close>

record CTxOutBase =
  nVersion :: OutputTypes
  pScriptPubKey :: "CScript option"
  txo_value :: i64

record CTransaction =
  vin :: "CTxIn list"
  vpout :: "CTxOutBase list"

text \<open>
  The DoS levels of \<open>BlockValidationResult\<close> that \<open>kernel.cpp\<close> passes to
  \<open>state.Invalid\<close>, and the part of \<open>BlockValidationState\<close> it writes.
\<close>

datatype BlockValidationResult = BLOCK_RESULT_UNSET | DOS_1 | DOS_20 | DOS_100

record BlockValidationState =
  nFlags :: u32
  m_result :: BlockValidationResult
  m_reject_reason :: string

text \<open>
  What \<open>kernel.cpp\<close> consumes from the rest of the node, taken as parameters: the
  live UTXO view (\<open>CoinsTip().GetCoin\<close>, \<open>None\<close> when it returns false) and
  \<open>Coin::IsSpent\<close>, the spent-coin archive (\<open>ReadSpentCache\<close>), the active chain
  \<open>m_chain[h]\<close> (\<open>None\<close> is the null pointer; the argument is the \<open>int\<close> the
  unsigned height converts to), the global \<open>fVerifyingDB\<close>, the constants
  \<open>MAX_REORG_DEPTH\<close> and \<open>BLOCK_STAKE_KERNEL_SPENT\<close>,
  \<open>Params().GetStakeMinConfirmations()\<close>, \<open>CTransaction::IsCoinStake\<close>,
  \<open>VerifyScript\<close> on input 0 (script signature, kernel script, witness, amount),
  \<open>HasIsCoinstakeOp\<close> and the chain hash \<open>Hash\<close> of a byte stream.
\<close>

record ChainEnv =
  GetCoin :: "COutPoint \<Rightarrow> Coin option"
  IsSpent :: "Coin \<Rightarrow> bool"
  ReadSpentCache :: "COutPoint \<Rightarrow> SpentCoin option"
  m_chain :: "u32 \<Rightarrow> CBlockIndex option"
  fVerifyingDB :: bool
  MAX_REORG_DEPTH :: nat
  BLOCK_STAKE_KERNEL_SPENT :: u32
  GetStakeMinConfirmations :: u32
  IsCoinStake :: "CTransaction \<Rightarrow> bool"
  VerifyScript :: "CTransaction \<Rightarrow> CScript \<Rightarrow> CScript \<Rightarrow> u8 list list \<Rightarrow> i64 \<Rightarrow> bool"
  HasIsCoinstakeOp :: "CScript \<Rightarrow> bool"
  Hash :: "u8 list \<Rightarrow> u256"

section \<open>Serialization and the compact target\<close>

text \<open>
  Modelled from the spec: the stream operators of \<open>CDataStream\<close> are not in
  \<open>kernel.cpp\<close>. The spec writes a 32-bit field as 4 little-endian bytes and a
  256-bit value as 32 little-endian bytes; \<open>le_bytes k x\<close> is the \<open>k\<close> low bytes of
  \<open>x\<close>, least significant first.
\<close>

fun le_bytes :: "nat \<Rightarrow> nat \<Rightarrow> u8 list" where
  "le_bytes 0 x = []"
| "le_bytes (Suc k) x = word_of_nat (x mod 256) # le_bytes k (x div 256)"

definition ser_u32 :: "u32 \<Rightarrow> u8 list" where
  "ser_u32 w = le_bytes 4 (unat w)"

definition ser_u256 :: "u256 \<Rightarrow> u8 list" where
  "ser_u256 w = le_bytes 32 (unat w)"

text \<open>The number a byte string denotes when read little-endian.\<close>

fun le_decode :: "u8 list \<Rightarrow> nat" where
  "le_decode [] = 0"
| "le_decode (b # bs) = unat b + 256 * le_decode bs"

text \<open>
  Modelled from the spec: \<open>arith_uint256::SetCompact\<close> is not in \<open>kernel.cpp\<close>.
  The spec describes the Bitcoin-style compact encoding: the high byte is the
  base-256 exponent, the low 24 bits are the mantissa with the sign in bit 23.
  The result is the target with the negative and overflow flags.
\<close>

definition SetCompact :: "u32 \<Rightarrow> u256 \<times> bool \<times> bool" where
  "SetCompact nCompact =
     (let nSize = unat (drop_bit 24 nCompact);
          nWord0 = nCompact AND 0x007fffff;
          nWord = (if nSize \<le> 3 then drop_bit (8 * (3 - nSize)) nWord0 else nWord0);
          target = (if nSize \<le> 3 then ucast nWord
                    else push_bit (8 * (nSize - 3)) (ucast nWord :: u256));
          fNegative = (nWord \<noteq> 0 \<and> (nCompact AND 0x00800000) \<noteq> 0);
          fOverflow = (nWord \<noteq> 0 \<and> (nSize > 34 \<or> (nWord > 0xff \<and> nSize > 33)
                        \<or> (nWord > 0xffff \<and> nSize > 32)))
      in (target, fNegative, fOverflow))"

section \<open>\<open>CheckStakeKernelHash\<close>\<close>

text \<open>
  Lines 156-158: the stream the kernel hash is taken of, in the order the source
  writes it.
\<close>

definition kernel_stream :: "u256 \<Rightarrow> u32 \<Rightarrow> COutPoint \<Rightarrow> u32 \<Rightarrow> u8 list" where
  "kernel_stream modifier nBlockFromTime po nTime =
     ser_u256 modifier @ ser_u32 nBlockFromTime @ ser_u256 (hash po) @ ser_u32 (n po)
       @ ser_u32 nTime"

text \<open>
  The function returns its boolean, the message it hands to \<open>error(...)\<close> (if any)
  and the two out-parameters \<open>hashProofOfStake\<close> and \<open>targetProofOfStake\<close>, which
  keep the caller's values until the source assigns them. \<open>prevOutAmount\<close> is an
  \<open>int64_t\<close> that \<open>arith_uint256(uint64_t)\<close> reads as unsigned; \<open>*=\<close> is the
  256-bit multiplication.
\<close>

definition CheckStakeKernelHash ::
  "(u8 list \<Rightarrow> u256) \<Rightarrow> CBlockIndex \<Rightarrow> u32 \<Rightarrow> u32 \<Rightarrow> i64 \<Rightarrow> COutPoint \<Rightarrow> u32 \<Rightarrow> u256 \<Rightarrow> u256
     \<Rightarrow> bool \<times> string option \<times> u256 \<times> u256" where
  "CheckStakeKernelHash H pindexPrev nBits nBlockFromTime prevOutAmount po nTime
       hashProofOfStake targetProofOfStake =
     (if nTime < nBlockFromTime
      then (False, Some ''nTime violation'', hashProofOfStake, targetProofOfStake)
      else case SetCompact nBits of (bnTarget0, fNegative, fOverflow) \<Rightarrow>
        if fNegative \<or> fOverflow \<or> bnTarget0 = 0
        then (False, Some ''SetCompact failed.'', hashProofOfStake, targetProofOfStake)
        else
          let bnWeight = (ucast prevOutAmount :: u256);
              bnTarget = bnTarget0 * bnWeight;
              hashPoS = H (kernel_stream (bnStakeModifier pindexPrev) nBlockFromTime po nTime)
          in if hashPoS > bnTarget then (False, None, hashPoS, bnTarget)
             else (True, None, hashPoS, bnTarget))"

section \<open>\<open>CheckProofOfStake\<close>\<close>

text \<open>
  Modelled from the spec: \<open>state.Invalid(result, reason)\<close> is declared outside
  \<open>kernel.cpp\<close>; it attaches the DoS level and the reject reason to the
  validation state (and returns false).
\<close>

definition Invalid ::
  "BlockValidationState \<Rightarrow> BlockValidationResult \<Rightarrow> string \<Rightarrow> BlockValidationState" where
  "Invalid state r reason = state\<lparr>m_result := r, m_reject_reason := reason\<rparr>"

text \<open>
  The test \<open>!GetCoin(prevout, coin) || coin.IsSpent()\<close> of lines 248, 312: the
  coin of the live UTXO set when the test is false, \<open>None\<close> when it is true.
\<close>

definition live_coin :: "ChainEnv \<Rightarrow> COutPoint \<Rightarrow> Coin option" where
  "live_coin env po =
     (case GetCoin env po of
        None \<Rightarrow> None
      | Some c \<Rightarrow> if IsSpent env c then None else Some c)"

text \<open>
  Lines 247-263: the kernel coin. \<open>Inl\<close> is the state of an early
  \<open>return state.Invalid(...)\<close>, \<open>Inr\<close> the coin with the state the function goes
  on with. The first comparison is on \<open>unsigned int\<close>; the difference of an
  \<open>int\<close> and a \<open>uint32_t\<close> is unsigned too.
\<close>

definition kernel_coin ::
  "ChainEnv \<Rightarrow> BlockValidationState \<Rightarrow> CBlockIndex \<Rightarrow> CTxIn
     \<Rightarrow> BlockValidationState + (Coin \<times> BlockValidationState)" where
  "kernel_coin env state pindexPrev txin =
     (case live_coin env (prevout txin) of
        Some c \<Rightarrow> Inr (c, state)
      | None \<Rightarrow>
          (case ReadSpentCache env (prevout txin) of
             None \<Rightarrow> Inl (Invalid state DOS_20 ''prevout-not-found'')
           | Some spent_coin \<Rightarrow>
               if \<not> fVerifyingDB env
                  \<and> idx_nHeight pindexPrev > spent_height spent_coin
                  \<and> unat (idx_nHeight pindexPrev - spent_height spent_coin) > MAX_REORG_DEPTH env
               then Inl (Invalid state DOS_100 ''invalid-prevout'')
               else Inr (coin spent_coin,
                         state\<lparr>nFlags := nFlags state OR BLOCK_STAKE_KERNEL_SPENT env\<rparr>)))"

text \<open>
  Lines 311-320: the coin of an input \<open>k \<ge> 1\<close>, from the live set or else from
  the archive; \<open>None\<close> when it is in neither.
\<close>

definition input_coin :: "ChainEnv \<Rightarrow> COutPoint \<Rightarrow> Coin option" where
  "input_coin env po =
     (case live_coin env po of
        Some c \<Rightarrow> Some c
      | None \<Rightarrow> map_option coin (ReadSpentCache env po))"

text \<open>
  Lines 309-330: the loop over the inputs \<open>k \<ge> 1\<close>, adding their values to
  \<open>amount\<close> (\<open>CAmount\<close> addition, two's complement). \<open>Inl\<close> is the level and
  reason of an early \<open>return state.Invalid(...)\<close>.
\<close>

fun extra_inputs ::
  "ChainEnv \<Rightarrow> CScript \<Rightarrow> CTxIn list \<Rightarrow> i64 \<Rightarrow> (BlockValidationResult \<times> string) + i64" where
  "extra_inputs env kernelPubKey [] amount = Inr amount"
| "extra_inputs env kernelPubKey (txin # rest) amount =
     (case input_coin env (prevout txin) of
        None \<Rightarrow> Inl (DOS_20, ''prevout-not-in-chain'')
      | Some c \<Rightarrow>
          if nType c \<noteq> OUTPUT_STANDARD then Inl (DOS_100, ''invalid-prevout'')
          else if kernelPubKey \<noteq> scriptPubKey (out c)
          then Inl (DOS_100, ''mixed-prevout-scripts'')
          else extra_inputs env kernelPubKey rest (amount + nValue (out c)))"

text \<open>Lines 332-346: the loop over the outputs, adding to \<open>nVerify\<close>.\<close>

fun outputs_to_kernel ::
  "CScript \<Rightarrow> CTxOutBase list \<Rightarrow> i64 \<Rightarrow> (BlockValidationResult \<times> string) + i64" where
  "outputs_to_kernel kernelPubKey [] nVerify = Inr nVerify"
| "outputs_to_kernel kernelPubKey (txout # rest) nVerify =
     (if nVersion txout \<noteq> OUTPUT_STANDARD
      then (if nVersion txout \<noteq> OUTPUT_DATA then Inl (DOS_100, ''bad-output-type'')
            else outputs_to_kernel kernelPubKey rest nVerify)
      else if pScriptPubKey txout = Some kernelPubKey
      then outputs_to_kernel kernelPubKey rest (nVerify + txo_value txout)
      else outputs_to_kernel kernelPubKey rest nVerify)"

text \<open>
  Lines 303-354: the check of the inputs and outputs when the kernel script has
  the coinstake-op pattern, and the final \<open>return true\<close>. \<open>nVerify < amount\<close>
  compares two \<open>CAmount\<close>s, signed.
\<close>

definition coinstake_op_check ::
  "ChainEnv \<Rightarrow> BlockValidationState \<Rightarrow> CTransaction \<Rightarrow> CScript \<Rightarrow> i64 \<Rightarrow> u256 \<Rightarrow> u256
     \<Rightarrow> bool \<times> BlockValidationState \<times> u256 \<times> u256" where
  "coinstake_op_check env state tx kernelPubKey amount hashPoS targetPoS =
     (if HasIsCoinstakeOp env kernelPubKey
      then
        (case extra_inputs env kernelPubKey (tl (vin tx)) amount of
           Inl (r, reason) \<Rightarrow> (False, Invalid state r reason, hashPoS, targetPoS)
         | Inr amount' \<Rightarrow>
             (case outputs_to_kernel kernelPubKey (vpout tx) 0 of
                Inl (r, reason) \<Rightarrow> (False, Invalid state r reason, hashPoS, targetPoS)
              | Inr nVerify \<Rightarrow>
                  if nVerify <s amount'
                  then (False, Invalid state DOS_100 ''verify-amount-script-failed'',
                        hashPoS, targetPoS)
                  else (True, state, hashPoS, targetPoS)))
      else (True, state, hashPoS, targetPoS))"

text \<open>
  Lines 275-276: the depth of the kernel coin and the depth required, both
  \<open>int\<close>. The subtraction wraps in 32 bits before it is read as \<open>int\<close>; \<open>/\<close> on
  \<open>int\<close> truncates.
\<close>

definition nDepth_of :: "CBlockIndex \<Rightarrow> Coin \<Rightarrow> int" where
  "nDepth_of pindexPrev c = sint (idx_nHeight pindexPrev - nHeight c)"

definition nRequiredDepth_of :: "ChainEnv \<Rightarrow> CBlockIndex \<Rightarrow> int" where
  "nRequiredDepth_of env pindexPrev =
     min (sint (GetStakeMinConfirmations env - 1)) (sint (idx_nHeight pindexPrev) sdiv 2)"

text \<open>
  The function returns its boolean, the validation state and the two
  out-parameters. \<open>nTime\<close> is an \<open>int64_t\<close> that the call of
  \<open>CheckStakeKernelHash\<close> converts to \<open>uint32_t\<close>.
\<close>

definition CheckProofOfStake ::
  "ChainEnv \<Rightarrow> BlockValidationState \<Rightarrow> CBlockIndex \<Rightarrow> CTransaction \<Rightarrow> i64 \<Rightarrow> u32 \<Rightarrow> u256 \<Rightarrow> u256
     \<Rightarrow> bool \<times> BlockValidationState \<times> u256 \<times> u256" where
  "CheckProofOfStake env state0 pindexPrev tx nTime nBits hashProofOfStake targetProofOfStake =
     (if \<not> IsCoinStake env tx \<or> length (vin tx) < 1
      then (False, Invalid state0 DOS_100 ''malformed-txn'', hashProofOfStake, targetProofOfStake)
      else
        let txin = hd (vin tx) in
        case kernel_coin env state0 pindexPrev txin of
          Inl rejected \<Rightarrow> (False, rejected, hashProofOfStake, targetProofOfStake)
        | Inr (c, state) \<Rightarrow>
            if nType c \<noteq> OUTPUT_STANDARD
            then (False, Invalid state DOS_100 ''invalid-prevout'',
                  hashProofOfStake, targetProofOfStake)
            else
              case m_chain env (nHeight c) of
                None \<Rightarrow> (False, Invalid state DOS_100 ''invalid-prevout'',
                         hashProofOfStake, targetProofOfStake)
              | Some pindex \<Rightarrow>
                  if nRequiredDepth_of env pindexPrev > nDepth_of pindexPrev c
                  then (False, Invalid state DOS_100 ''invalid-stake-depth'',
                        hashProofOfStake, targetProofOfStake)
                  else
                    let kernelPubKey = scriptPubKey (out c);
                        amount = nValue (out c);
                        nBlockFromTime = idx_nTime pindex
                    in
                    if \<not> VerifyScript env tx (scriptSig txin) kernelPubKey (scriptWitness txin) amount
                    then (False, Invalid state DOS_100 ''verify-cs-script-failed'',
                          hashProofOfStake, targetProofOfStake)
                    else
                      case CheckStakeKernelHash (Hash env) pindexPrev nBits nBlockFromTime amount
                             (prevout txin) (ucast nTime) hashProofOfStake targetProofOfStake of
                        (ok, msg, hashPoS, targetPoS) \<Rightarrow>
                          if \<not> ok
                          then (False, Invalid state DOS_1 ''check-kernel-failed'', hashPoS, targetPoS)
                          else coinstake_op_check env state tx kernelPubKey amount hashPoS targetPoS)"

section \<open>\<open>CheckKernel\<close>\<close>

text \<open>
  \<open>pBlockTime\<close> is a pointer to an \<open>int64_t\<close>: \<open>None\<close> is the null pointer,
  \<open>Some v\<close> a cell holding \<open>v\<close>. Reading through the null pointer has no defined
  behaviour; the model makes it the outcome \<open>NullDereference\<close>. A call that
  returns gives its boolean and the cell.
\<close>

datatype 'a exec = NullDereference | Returns 'a

definition CheckKernel ::
  "ChainEnv \<Rightarrow> CBlockIndex \<Rightarrow> u32 \<Rightarrow> i64 \<Rightarrow> COutPoint \<Rightarrow> i64 option \<Rightarrow> (bool \<times> i64 option) exec" where
  "CheckKernel env pindexPrev nBits nTime po pBlockTime =
     (case GetCoin env po of
        None \<Rightarrow> Returns (False, pBlockTime)
      | Some c \<Rightarrow>
          if nType c \<noteq> OUTPUT_STANDARD then Returns (False, pBlockTime)
          else if IsSpent env c then Returns (False, pBlockTime)
          else
            case m_chain env (nHeight c) of
              None \<Rightarrow> Returns (False, pBlockTime)
            | Some pindex \<Rightarrow>
                if nRequiredDepth_of env pindexPrev > nDepth_of pindexPrev c
                then Returns (False, pBlockTime)
                else
                  let cell = (case pBlockTime of
                                None \<Rightarrow> None
                              | Some old \<Rightarrow> Some (ucast (idx_nTime pindex) :: i64))
                  in
                  case cell of
                    None \<Rightarrow> NullDereference
                  | Some blockTime \<Rightarrow>
                      (case CheckStakeKernelHash (Hash env) pindexPrev nBits (ucast blockTime)
                              (nValue (out c)) po (ucast nTime) 0 0 of
                         (ok, rest) \<Rightarrow> Returns (ok, cell)))"

section \<open>Reading the checks\<close>

text \<open>
  The conditions under which \<open>CheckProofOfStake\<close> reaches its call of
  \<open>CheckStakeKernelHash\<close> (line 297) with kernel coin \<open>c\<close>, state \<open>state\<close> and
  the block index \<open>pindex\<close> of the coin's height: every check of lines 231-295
  passes.
\<close>

definition reaches_kernel_check ::
  "ChainEnv \<Rightarrow> BlockValidationState \<Rightarrow> CBlockIndex \<Rightarrow> CTransaction \<Rightarrow> Coin
     \<Rightarrow> BlockValidationState \<Rightarrow> CBlockIndex \<Rightarrow> bool" where
  "reaches_kernel_check env state0 pindexPrev tx c state pindex =
     (IsCoinStake env tx \<and> vin tx \<noteq> []
      \<and> kernel_coin env state0 pindexPrev (hd (vin tx)) = Inr (c, state)
      \<and> nType c = OUTPUT_STANDARD
      \<and> m_chain env (nHeight c) = Some pindex
      \<and> nDepth_of pindexPrev c \<ge> nRequiredDepth_of env pindexPrev
      \<and> VerifyScript env tx (scriptSig (hd (vin tx))) (scriptPubKey (out c))
           (scriptWitness (hd (vin tx))) (nValue (out c)))"

text \<open>The kernel hash and the weighted target of lines 146-159, as the caller sees them.\<close>

definition hash_pos :: "ChainEnv \<Rightarrow> CBlockIndex \<Rightarrow> CBlockIndex \<Rightarrow> COutPoint \<Rightarrow> u32 \<Rightarrow> u256" where
  "hash_pos env pindexPrev pindex po nTime =
     Hash env (kernel_stream (bnStakeModifier pindexPrev) (idx_nTime pindex) po nTime)"

definition weighted_target :: "u32 \<Rightarrow> i64 \<Rightarrow> u256" where
  "weighted_target nBits amount = fst (SetCompact nBits) * ucast amount"

text \<open>The target of \<open>nBits\<close> decodes: not negative, no overflow, not zero (line 141).\<close>

definition compact_ok :: "u32 \<Rightarrow> bool" where
  "compact_ok nBits =
     (case SetCompact nBits of
        (bnTarget, fNegative, fOverflow) \<Rightarrow> \<not> fNegative \<and> \<not> fOverflow \<and> bnTarget \<noteq> 0)"

text \<open>
  What the loop of lines 309-330 asks of an input, and the value it adds; what
  the loop of lines 333-346 asks of an output, and which outputs it adds up.
\<close>

definition good_input :: "ChainEnv \<Rightarrow> CScript \<Rightarrow> CTxIn \<Rightarrow> bool" where
  "good_input env k txin =
     (case input_coin env (prevout txin) of
        None \<Rightarrow> False
      | Some c \<Rightarrow> nType c = OUTPUT_STANDARD \<and> scriptPubKey (out c) = k)"

definition input_value :: "ChainEnv \<Rightarrow> CTxIn \<Rightarrow> i64" where
  "input_value env txin =
     (case input_coin env (prevout txin) of None \<Rightarrow> 0 | Some c \<Rightarrow> nValue (out c))"

text \<open>The level and reason with which the loop of lines 309-330 rejects an input.\<close>

definition input_error :: "ChainEnv \<Rightarrow> CScript \<Rightarrow> CTxIn \<Rightarrow> BlockValidationResult \<times> string" where
  "input_error env k txin =
     (case input_coin env (prevout txin) of
        None \<Rightarrow> (DOS_20, ''prevout-not-in-chain'')
      | Some c \<Rightarrow>
          if nType c \<noteq> OUTPUT_STANDARD then (DOS_100, ''invalid-prevout'')
          else (DOS_100, ''mixed-prevout-scripts''))"

definition good_output :: "CTxOutBase \<Rightarrow> bool" where
  "good_output txout = (nVersion txout = OUTPUT_STANDARD \<or> nVersion txout = OUTPUT_DATA)"

definition pays_kernel :: "CScript \<Rightarrow> CTxOutBase \<Rightarrow> bool" where
  "pays_kernel k txout = (nVersion txout = OUTPUT_STANDARD \<and> pScriptPubKey txout = Some k)"

section \<open>Sample chain states, for the concrete instances below\<close>

definition sample_hash :: "u8 list \<Rightarrow> u256" where
  "sample_hash bs = word_of_nat (length bs)"

definition stake_script :: CScript where
  "stake_script = [0xb8, 0x76]"

definition kernel_prevout :: COutPoint where
  "kernel_prevout = \<lparr>hash = 0x1122, n = 0\<rparr>"

definition second_prevout :: COutPoint where
  "second_prevout = \<lparr>hash = 0x3344, n = 1\<rparr>"

definition sample_coin :: "CScript \<Rightarrow> OutputTypes \<Rightarrow> i64 \<Rightarrow> Coin" where
  "sample_coin script t v =
     \<lparr>out = \<lparr>nValue = v, scriptPubKey = script\<rparr>, nType = t, nHeight = 100\<rparr>"

definition sample_tip :: CBlockIndex where
  "sample_tip = \<lparr>bnStakeModifier = 1, idx_nHeight = 1000, idx_nTime = 1600000256\<rparr>"

text \<open>A tip only 50 blocks above the sample coin.\<close>

definition near_tip :: CBlockIndex where
  "near_tip = \<lparr>bnStakeModifier = 1, idx_nHeight = 150, idx_nTime = 1600000256\<rparr>"

text \<open>A tip far above the sample coin.\<close>

definition far_tip :: CBlockIndex where
  "far_tip = \<lparr>bnStakeModifier = 1, idx_nHeight = 5000, idx_nTime = 1600000256\<rparr>"

definition sample_block :: CBlockIndex where
  "sample_block = \<lparr>bnStakeModifier = 0, idx_nHeight = 100, idx_nTime = 1600000000\<rparr>"

definition sample_env ::
  "(COutPoint \<Rightarrow> Coin option) \<Rightarrow> (COutPoint \<Rightarrow> SpentCoin option) \<Rightarrow> ChainEnv" where
  "sample_env live archive =
     \<lparr>GetCoin = live, IsSpent = (\<lambda>c. False), ReadSpentCache = archive,
      m_chain = (\<lambda>h. if h = 100 then Some sample_block else None),
      fVerifyingDB = False, MAX_REORG_DEPTH = 1024, BLOCK_STAKE_KERNEL_SPENT = 32,
      GetStakeMinConfirmations = 225, IsCoinStake = (\<lambda>tx. True),
      VerifyScript = (\<lambda>tx sig key wit amt. True),
      HasIsCoinstakeOp = (\<lambda>s. take 1 s = [0xb8]), Hash = sample_hash\<rparr>"

definition sample_txin :: "COutPoint \<Rightarrow> CTxIn" where
  "sample_txin po = \<lparr>prevout = po, scriptSig = [], scriptWitness = []\<rparr>"

definition sample_out :: "OutputTypes \<Rightarrow> CScript option \<Rightarrow> i64 \<Rightarrow> CTxOutBase" where
  "sample_out t s v = \<lparr>nVersion = t, pScriptPubKey = s, txo_value = v\<rparr>"

definition sample_state :: BlockValidationState where
  "sample_state = \<lparr>nFlags = 0, m_result = BLOCK_RESULT_UNSET, m_reject_reason = []\<rparr>"

text \<open>One live kernel coin and nothing else.\<close>

definition one_coin_env :: "Coin \<Rightarrow> ChainEnv" where
  "one_coin_env c = sample_env (\<lambda>po. if po = kernel_prevout then Some c else None) (\<lambda>po. None)"

text \<open>No live coin; the kernel coin is in the archive, spent at the given height.\<close>

definition archive_env :: "Coin \<Rightarrow> u32 \<Rightarrow> ChainEnv" where
  "archive_env c h =
     sample_env (\<lambda>po. None)
       (\<lambda>po. if po = kernel_prevout then Some \<lparr>coin = c, spent_height = h\<rparr> else None)"

definition kernel_only_tx :: CTransaction where
  "kernel_only_tx =
     \<lparr>vin = [sample_txin kernel_prevout],
      vpout = [sample_out OUTPUT_DATA None 0,
               sample_out OUTPUT_STANDARD (Some stake_script) 1000000000]\<rparr>"

text \<open>Two inputs; the second output pays \<open>v\<close> to the stake script.\<close>

definition two_input_tx :: "i64 \<Rightarrow> CTransaction" where
  "two_input_tx v =
     \<lparr>vin = [sample_txin kernel_prevout, sample_txin second_prevout],
      vpout = [sample_out OUTPUT_DATA None 0,
               sample_out OUTPUT_STANDARD (Some stake_script) v]\<rparr>"

text \<open>Two live coins, the kernel coin and the coin of the second prevout.\<close>

definition two_coin_env :: "Coin \<Rightarrow> Coin \<Rightarrow> ChainEnv" where
  "two_coin_env c1 c2 =
     sample_env (\<lambda>po. if po = kernel_prevout then Some c1
                      else if po = second_prevout then Some c2 else None)
       (\<lambda>po. None)"

section \<open>Facts about the serialization\<close>

lemma length_le_bytes: "length (le_bytes k x) = k"
  by (induction k arbitrary: x) simp_all

lemma le_decode_le_bytes: "le_decode (le_bytes k x) = x mod 256 ^ k"
proof (induction k arbitrary: x)
  case 0
  show ?case by simp
next
  case (Suc k)
  have b: "unat (word_of_nat (x mod 256) :: u8) = x mod 256"
    by (simp add: unat_of_nat)
  have "le_decode (le_bytes (Suc k) x) = x mod 256 + 256 * ((x div 256) mod 256 ^ k)"
    using Suc.IH [of "x div 256"] b by simp
  also have "\<dots> = x mod 256 ^ Suc k"
    by (simp add: mod_mult2_eq)
  finally show ?case .
qed

lemma le_decode_ser_u32: "le_decode (ser_u32 w) = unat w"
proof -
  have "unat w < 256 ^ 4"
    using unsigned_less [of w, where ?'a = nat] by simp
  then show ?thesis
    by (simp add: ser_u32_def le_decode_le_bytes)
qed

lemma le_decode_ser_u256: "le_decode (ser_u256 w) = unat w"
proof -
  have "(256::nat) ^ 32 = 2 ^ 256" by simp
  moreover have "unat w < 2 ^ 256"
    using unsigned_less [of w, where ?'a = nat] by simp
  ultimately have "unat w < 256 ^ 32" by presburger
  then show ?thesis
    by (simp add: ser_u256_def le_decode_le_bytes)
qed

lemma length_ser_u32: "length (ser_u32 w) = 4"
  by (simp add: ser_u32_def length_le_bytes)

lemma length_ser_u256: "length (ser_u256 w) = 32"
  by (simp add: ser_u256_def length_le_bytes)

section \<open>Facts about the two loops\<close>

lemma extra_inputs_Inl:
  "extra_inputs env k ins a = Inl e \<Longrightarrow>
     e = (DOS_20, ''prevout-not-in-chain'') \<or> e = (DOS_100, ''invalid-prevout'')
       \<or> e = (DOS_100, ''mixed-prevout-scripts'')"
  by (induction ins arbitrary: a) (auto split: option.splits if_splits)

lemma outputs_to_kernel_Inl:
  "outputs_to_kernel k outs v = Inl e \<Longrightarrow> e = (DOS_100, ''bad-output-type'')"
  by (induction outs arbitrary: v) (auto split: if_splits)

lemma extra_inputs_Inr:
  "(extra_inputs env k ins a = Inr b) =
     (list_all (good_input env k) ins \<and> b = a + sum_list (map (input_value env) ins))"
proof (induction ins arbitrary: a k)
  case Nil
  show ?case by auto
next
  case (Cons txin ins)
  show ?case
  proof (cases "input_coin env (prevout txin)")
    case None
    then show ?thesis by (simp add: good_input_def)
  next
    case (Some c)
    have g: "good_input env k txin = (nType c = OUTPUT_STANDARD \<and> scriptPubKey (out c) = k)"
      by (simp add: good_input_def Some)
    have v: "input_value env txin = nValue (out c)"
      by (simp add: input_value_def Some)
    show ?thesis
      using Some by (auto simp: g v Cons.IH add.assoc)
  qed
qed

lemma outputs_to_kernel_Inr:
  "(outputs_to_kernel k outs v = Inr w) =
     (list_all good_output outs
      \<and> w = v + sum_list (map txo_value (filter (pays_kernel k) outs)))"
proof (induction outs arbitrary: v)
  case Nil
  show ?case by auto
next
  case (Cons txout outs)
  show ?case
    by (simp add: good_output_def pays_kernel_def Cons.IH add.assoc)
qed

lemma sint_sum_list:
  "sint (sum_list ws :: i64) = signed_take_bit 63 (sum_list (map sint ws))"
proof (induction ws)
  case Nil
  show ?case by simp
next
  case (Cons w ws)
  have "sint (w + sum_list ws) = signed_take_bit 63 (sint w + sint (sum_list ws))"
    by (simp add: sint_word_ariths)
  also have "\<dots> = signed_take_bit 63 (sint w + sum_list (map sint ws))"
    unfolding Cons.IH
    using signed_take_bit_add [of 63 "sint w" "signed_take_bit 63 (sum_list (map sint ws))"]
      signed_take_bit_add [of 63 "sint w" "sum_list (map sint ws)"]
    by simp
  finally show ?case by simp
qed

lemma sint_sum_list_exact:
  assumes "- (2 ^ 63) \<le> sum_list (map sint ws)" "sum_list (map sint ws) < 2 ^ 63"
  shows "sint (sum_list ws :: i64) = sum_list (map sint ws)"
  using assms by (simp add: sint_sum_list signed_take_bit_int_eq_self)

section \<open>Facts about the checks\<close>

lemma CheckStakeKernelHash_cases:
  "CheckStakeKernelHash H pindexPrev nBits nBlockFromTime amount po nTime h t =
     (if nTime < nBlockFromTime then (False, Some ''nTime violation'', h, t)
      else if \<not> compact_ok nBits then (False, Some ''SetCompact failed.'', h, t)
      else (H (kernel_stream (bnStakeModifier pindexPrev) nBlockFromTime po nTime)
              \<le> weighted_target nBits amount,
            None,
            H (kernel_stream (bnStakeModifier pindexPrev) nBlockFromTime po nTime),
            weighted_target nBits amount))"
  by (auto simp: CheckStakeKernelHash_def compact_ok_def weighted_target_def Let_def
      split: prod.splits)

lemma CheckProofOfStake_at_kernel:
  assumes "reaches_kernel_check env state0 pindexPrev tx c state pindex"
  shows "CheckProofOfStake env state0 pindexPrev tx nTime nBits h t =
     (case CheckStakeKernelHash (Hash env) pindexPrev nBits (idx_nTime pindex) (nValue (out c))
             (prevout (hd (vin tx))) (ucast nTime) h t of
        (ok, msg, hashPoS, targetPoS) \<Rightarrow>
          if \<not> ok then (False, Invalid state DOS_1 ''check-kernel-failed'', hashPoS, targetPoS)
          else coinstake_op_check env state tx (scriptPubKey (out c)) (nValue (out c))
                 hashPoS targetPoS)"
  using assms
  by (simp add: reaches_kernel_check_def CheckProofOfStake_def Let_def)

lemma coinstake_op_check_level:
  "coinstake_op_check env state tx k amount hp tp = (ok, state', rest) \<Longrightarrow>
     (ok \<and> state' = state)
     \<or> (\<not> ok \<and> (\<exists>reason. state' = Invalid state DOS_20 reason \<or> state' = Invalid state DOS_100 reason))"
  by (auto simp: coinstake_op_check_def split: if_splits sum.splits
      dest!: extra_inputs_Inl outputs_to_kernel_Inl)

lemma unat_weighted_target:
  "unat (weighted_target nBits amount)
     = (unat (fst (SetCompact nBits)) * unat amount) mod 2 ^ 256"
proof -
  have "unat amount < 2 ^ 64"
    using unsigned_less [of amount, where ?'a = nat] by simp
  also have "(2::nat) ^ 64 < 2 ^ 256"
    by simp
  finally have "unat (ucast amount :: u256) = unat amount"
    by (simp add: unsigned_ucast_eq take_bit_nat_eq_self)
  then show ?thesis
    by (simp add: weighted_target_def unat_word_ariths)
qed

lemma CheckProofOfStake_accepts:
  assumes "fst (CheckProofOfStake env state0 pindexPrev tx nTime nBits h t)"
  shows "\<exists>c state pindex. reaches_kernel_check env state0 pindexPrev tx c state pindex
           \<and> fst (CheckStakeKernelHash (Hash env) pindexPrev nBits (idx_nTime pindex)
                    (nValue (out c)) (prevout (hd (vin tx))) (ucast nTime) h t)"
  using assms unfolding CheckProofOfStake_def reaches_kernel_check_def
  by (auto simp: Let_def split: if_splits sum.splits option.splits prod.splits)

lemma uint_ucast_block_time:
  assumes "0 \<le> sint (nTime :: i64)" and "sint nTime < 2 ^ 32"
  shows "uint (ucast nTime :: u32) = sint nTime"
proof -
  have "sint nTime < 2 ^ 64"
    using assms(2) by simp
  then have e: "uint nTime = sint nTime"
    using assms(1) by (simp add: uint_sint [of nTime] take_bit_int_eq_self)
  have "uint (ucast nTime :: u32) = take_bit 32 (uint nTime)"
    by (simp add: unsigned_ucast_eq)
  also have "\<dots> = sint nTime"
    using assms by (simp add: e take_bit_int_eq_self)
  finally show ?thesis .
qed

lemma sint_small:
  assumes "uint (w :: u32) < 2 ^ 31"
  shows "sint w = uint w"
proof -
  have "- (2 ^ 31) \<le> (0 :: int)"
    by simp
  also have "0 \<le> uint w"
    by simp
  finally have "signed_take_bit 31 (uint w) = uint w"
    using assms by (rule signed_take_bit_int_eq_self)
  then show ?thesis
    by (simp add: sint_uint)
qed

lemma sdiv_2_nonneg:
  assumes "0 \<le> (k :: int)"
  shows "k sdiv 2 = k div 2"
  using assms by (cases "k = 0") (simp_all add: signed_divide_int_def)

lemma nDepth_of_int:
  assumes "0 \<le> sint (idx_nHeight pindexPrev)" and "uint (nHeight c) < 2 ^ 31"
  shows "nDepth_of pindexPrev c = sint (idx_nHeight pindexPrev) - uint (nHeight c)"
proof -
  have b: "sint (nHeight c) = uint (nHeight c)"
    using assms(2) by (rule sint_small)
  have u: "0 \<le> uint (nHeight c)"
    by simp
  have a: "sint (idx_nHeight pindexPrev) < 2 ^ 31"
    using sint_less [of "idx_nHeight pindexPrev"] by simp
  have "sint (idx_nHeight pindexPrev - nHeight c)
          = signed_take_bit 31 (sint (idx_nHeight pindexPrev) - sint (nHeight c))"
    by (simp add: sint_word_diff)
  also have "\<dots> = sint (idx_nHeight pindexPrev) - uint (nHeight c)"
    unfolding b using assms a u by (intro signed_take_bit_int_eq_self) linarith+
  finally show ?thesis
    by (simp add: nDepth_of_def)
qed


lemma nRequiredDepth_of_int:
  assumes "0 \<le> sint (idx_nHeight pindexPrev)"
    and "uint (GetStakeMinConfirmations env) \<le> 2 ^ 31"
  shows "nRequiredDepth_of env pindexPrev
           = min (uint (GetStakeMinConfirmations env) - 1) (sint (idx_nHeight pindexPrev) div 2)"
proof -
  define smc where "smc = GetStakeMinConfirmations env"
  have "sint (smc - 1) = uint smc - 1"
  proof (cases "smc = 0")
    case True
    then show ?thesis by simp
  next
    case False
    then have "uint smc \<noteq> 0"
      by (simp add: uint_0_iff)
    then have "1 \<le> uint smc"
      using uint_nonnegative [of smc] by linarith
    then have "uint (1 :: u32) \<le> uint smc"
      by simp
    then have "uint (smc - 1) = uint smc - uint (1 :: u32)"
      by (rule iffD1 [OF uint_sub_lem])
    then have "uint (smc - 1) = uint smc - 1"
      by simp
    moreover from this have "uint (smc - 1) < 2 ^ 31"
      using assms(2) by (simp add: smc_def)
    ultimately show ?thesis
      using sint_small [of "smc - 1"] by simp
  qed
  then show ?thesis
    using assms(1) by (simp add: nRequiredDepth_of_def smc_def sdiv_2_nonneg)
qed


lemma coinstake_op_check_reason:
  "coinstake_op_check env state tx k amount hp tp = (ok, state', rest) \<Longrightarrow>
     ok \<or> m_reject_reason state' \<in> {''prevout-not-in-chain'', ''invalid-prevout'',
         ''mixed-prevout-scripts'', ''bad-output-type'', ''verify-amount-script-failed''}"
  by (auto simp: coinstake_op_check_def Invalid_def split: if_splits sum.splits
      dest!: extra_inputs_Inl outputs_to_kernel_Inl)

lemma CheckProofOfStake_past_depth:
  assumes "IsCoinStake env tx" and "vin tx \<noteq> []"
    and "kernel_coin env state0 pindexPrev (hd (vin tx)) = Inr (c, state)"
    and "nType c = OUTPUT_STANDARD" and "m_chain env (nHeight c) = Some pindex"
    and "nRequiredDepth_of env pindexPrev \<le> nDepth_of pindexPrev c"
  shows "fst (CheckProofOfStake env state0 pindexPrev tx nTime nBits h t)
     \<or> m_reject_reason (fst (snd (CheckProofOfStake env state0 pindexPrev tx nTime nBits h t)))
         \<in> {''verify-cs-script-failed'', ''check-kernel-failed'', ''prevout-not-in-chain'',
             ''invalid-prevout'', ''mixed-prevout-scripts'', ''bad-output-type'',
             ''verify-amount-script-failed''}"
proof (cases "VerifyScript env tx (scriptSig (hd (vin tx))) (scriptPubKey (out c))
           (scriptWitness (hd (vin tx))) (nValue (out c))")
  case False
  then show ?thesis
    using assms by (simp add: CheckProofOfStake_def Let_def Invalid_def)
next
  case True
  then have r: "reaches_kernel_check env state0 pindexPrev tx c state pindex"
    using assms by (simp add: reaches_kernel_check_def)
  obtain ok msg hp tp where k: "CheckStakeKernelHash (Hash env) pindexPrev nBits (idx_nTime pindex)
      (nValue (out c)) (prevout (hd (vin tx))) (ucast nTime) h t = (ok, msg, hp, tp)"
    by (metis prod_cases4)
  show ?thesis
  proof (cases ok)
    case False
    then show ?thesis
      by (simp add: CheckProofOfStake_at_kernel [OF r] k Invalid_def)
  next
    case True
    obtain ok' st rest where c: "coinstake_op_check env state tx (scriptPubKey (out c))
        (nValue (out c)) hp tp = (ok', st, rest)"
      by (metis prod_cases3)
    have "CheckProofOfStake env state0 pindexPrev tx nTime nBits h t = (ok', st, rest)"
      using True by (simp add: CheckProofOfStake_at_kernel [OF r] k c)
    then show ?thesis
      using coinstake_op_check_reason [OF c] by auto
  qed
qed

lemma coinstake_op_check_flags:
  "nFlags (fst (snd (coinstake_op_check env state tx k amount hp tp))) = nFlags state"
  by (auto simp: coinstake_op_check_def Invalid_def split: sum.splits)

lemma CheckProofOfStake_flags:
  assumes "IsCoinStake env tx" and "vin tx \<noteq> []"
    and "kernel_coin env state0 pindexPrev (hd (vin tx)) = Inr (c, state)"
  shows "nFlags (fst (snd (CheckProofOfStake env state0 pindexPrev tx nTime nBits h t)))
           = nFlags state"
  using assms
  by (auto simp: CheckProofOfStake_def Let_def Invalid_def coinstake_op_check_flags
      split: option.splits prod.splits)

lemma reorg_distance:
  "(spent < tip \<and> m < unat (tip - spent))
     \<longleftrightarrow> (unat spent < unat tip \<and> m < unat tip - unat spent)"
  for tip spent :: u32
proof (cases "spent < tip")
  case True
  then have "spent \<le> tip"
    by simp
  then have "unat (tip - spent) = unat tip - unat spent"
    by (rule unat_sub)
  moreover have "unat spent < unat tip"
    using True by (simp add: word_less_nat_alt)
  ultimately show ?thesis
    using True by simp
next
  case False
  then show ?thesis
    by (simp add: word_less_nat_alt)
qed

lemma extra_inputs_find:
  "extra_inputs env k ins a =
     (case find (\<lambda>txin. \<not> good_input env k txin) ins of
        None \<Rightarrow> Inr (a + sum_list (map (input_value env) ins))
      | Some bad \<Rightarrow> Inl (input_error env k bad))"
proof (induction ins arbitrary: a)
  case Nil
  show ?case by simp
next
  case (Cons txin ins)
  show ?case
  proof (cases "input_coin env (prevout txin)")
    case None
    then show ?thesis
      by (simp add: good_input_def input_error_def)
  next
    case (Some c)
    have g: "good_input env k txin = (nType c = OUTPUT_STANDARD \<and> scriptPubKey (out c) = k)"
      by (simp add: good_input_def Some)
    have v: "input_value env txin = nValue (out c)"
      by (simp add: input_value_def Some)
    have e: "input_error env k txin = (if nType c \<noteq> OUTPUT_STANDARD then (DOS_100, ''invalid-prevout'')
          else (DOS_100, ''mixed-prevout-scripts''))"
      by (simp add: input_error_def Some)
    show ?thesis
    proof (cases "good_input env k txin")
      case True
      then have step: "extra_inputs env k (txin # ins) a
                         = extra_inputs env k ins (a + nValue (out c))"
        using Some g by auto
      show ?thesis
        unfolding step Cons.IH using True
        by (simp add: v add.assoc split: option.splits)
    next
      case False
      then have step: "extra_inputs env k (txin # ins) a = Inl (input_error env k txin)"
        using Some g e by auto
      show ?thesis
        unfolding step using False by simp
    qed
  qed
qed

lemma find_None_list_all:
  "(find (\<lambda>x. \<not> P x) xs = None) = list_all P xs"
  by (induction xs) auto

lemma outputs_to_kernel_bad:
  assumes "\<not> list_all good_output outs"
  shows "outputs_to_kernel k outs v = Inl (DOS_100, ''bad-output-type'')"
proof (cases "outputs_to_kernel k outs v")
  case (Inl e)
  then show ?thesis
    using outputs_to_kernel_Inl [OF Inl] by simp
next
  case (Inr w)
  then show ?thesis
    using assms by (simp add: outputs_to_kernel_Inr)
qed

lemma outputs_to_kernel_good:
  assumes "list_all good_output outs"
  shows "outputs_to_kernel k outs v
           = Inr (v + sum_list (map txo_value (filter (pays_kernel k) outs)))"
  using assms by (simp add: outputs_to_kernel_Inr)

lemma coinstake_op_check_cases:
  assumes "HasIsCoinstakeOp env k"
  shows "coinstake_op_check env state tx k amount hp tp =
     (case find (\<lambda>txin. \<not> good_input env k txin) (tl (vin tx)) of
        Some bad \<Rightarrow> (False, Invalid state (fst (input_error env k bad))
                              (snd (input_error env k bad)), hp, tp)
      | None \<Rightarrow>
          if \<not> list_all good_output (vpout tx)
          then (False, Invalid state DOS_100 ''bad-output-type'', hp, tp)
          else if sum_list (map txo_value (filter (pays_kernel k) (vpout tx)))
                    <s amount + sum_list (map (input_value env) (tl (vin tx)))
          then (False, Invalid state DOS_100 ''verify-amount-script-failed'', hp, tp)
          else (True, state, hp, tp))"
proof (cases "find (\<lambda>txin. \<not> good_input env k txin) (tl (vin tx))")
  case (Some bad)
  then show ?thesis
    using assms by (simp add: coinstake_op_check_def extra_inputs_find split: prod.splits)
next
  case None
  show ?thesis
  proof (cases "list_all good_output (vpout tx)")
    case True
    then show ?thesis
      using assms None
      by (simp add: coinstake_op_check_def extra_inputs_find outputs_to_kernel_good)
  next
    case False
    then show ?thesis
      using assms None
      by (simp add: coinstake_op_check_def extra_inputs_find outputs_to_kernel_bad)
  qed
qed

section \<open>Facts about the sample chain states\<close>

lemmas sample_defs = one_coin_env_def archive_env_def two_coin_env_def sample_env_def sample_coin_def
  sample_tip_def near_tip_def far_tip_def sample_block_def kernel_only_tx_def two_input_tx_def sample_txin_def
  sample_out_def sample_state_def kernel_prevout_def second_prevout_def stake_script_def


lemma reach_one_coin:
  "reaches_kernel_check (one_coin_env (sample_coin stake_script OUTPUT_STANDARD v))
     sample_state sample_tip kernel_only_tx (sample_coin stake_script OUTPUT_STANDARD v)
     sample_state sample_block"
  by (simp add: reaches_kernel_check_def sample_defs kernel_coin_def live_coin_def
        nDepth_of_def nRequiredDepth_of_def signed_divide_int_def)

lemma hash_pos_one_coin:
  "hash_pos (one_coin_env cc) sample_tip sample_block po tt = 76"
  by (simp add: hash_pos_def sample_defs sample_hash_def kernel_stream_def
        length_ser_u32 length_ser_u256)

lemma sample_compact:
  "SetCompact 0x1e0fffff = (push_bit 216 0x0fffff, False, False)"
  "SetCompact 0x03000001 = (1, False, False)"
  by (simp_all add: SetCompact_def Let_def drop_bit_eq_div)

lemma sample_fields:
  "prevout (hd (vin kernel_only_tx)) = kernel_prevout"
  "prevout (hd (vin (two_input_tx v))) = kernel_prevout"
  "nValue (out (sample_coin s ty v)) = v"
  "scriptPubKey (out (sample_coin s ty v)) = s"
  "Hash (one_coin_env cc) = sample_hash"
  "Hash (archive_env cc hh) = sample_hash"
  "Hash (two_coin_env cc cc') = sample_hash"
  by (simp_all add: sample_defs)

lemma sample_compact2:
  "SetCompact 0x03000013 = (19, False, False)"
  "SetCompact 0 = (0, False, False)"
  "SetCompact 0x20000001 = (push_bit 232 1, False, False)"
  by (simp_all add: SetCompact_def Let_def drop_bit_eq_div)



lemma sample_stream_hash:
  "sample_hash (kernel_stream m bft po tt) = 76"
  by (simp add: sample_hash_def kernel_stream_def length_ser_u32 length_ser_u256)

lemma wt_s1: "weighted_target 0x1e0fffff 1000000000 = push_bit 216 740418729472"
  by (simp add: weighted_target_def sample_compact)

lemma wt_s2: "weighted_target 0x1e0fffff 1048576 = push_bit 216 1099510579200"
  by (simp add: weighted_target_def sample_compact)

lemma wt_s3: "weighted_target 0x20000001 16777216 = 0"
  by (simp add: weighted_target_def sample_compact2)

lemma wt_s4: "weighted_target 0x20000001 1 = push_bit 232 1"
  by (simp add: weighted_target_def sample_compact2)

lemma sample_compact3:
  "SetCompact 0x04923456 = (0x12345600, True, False)"
  by (simp add: SetCompact_def Let_def drop_bit_eq_div)

lemma sample_accept:
  "CheckProofOfStake (one_coin_env (sample_coin stake_script OUTPUT_STANDARD 1000000000))
     sample_state sample_tip kernel_only_tx 1600000256 0x1e0fffff 0 0
   = (True, sample_state, 76, weighted_target 0x1e0fffff 1000000000)"
proof -
  have c: "compact_ok 0x1e0fffff"
    by (simp add: compact_ok_def sample_compact)
  have k: "CheckStakeKernelHash sample_hash sample_tip 0x1e0fffff (idx_nTime sample_block)
             1000000000 kernel_prevout 1600000256 0 0
           = (True, None, 76, weighted_target 0x1e0fffff 1000000000)"
    by (simp add: CheckStakeKernelHash_cases c sample_stream_hash wt_s1 sample_block_def)
  have s: "coinstake_op_check (one_coin_env (sample_coin stake_script OUTPUT_STANDARD 1000000000))
             sample_state kernel_only_tx stake_script 1000000000 hp tp
           = (True, sample_state, hp, tp)" for hp tp
    by (simp add: coinstake_op_check_def sample_defs)
  show ?thesis
    by (simp add: CheckProofOfStake_at_kernel [OF reach_one_coin] sample_fields k s)
qed

lemma reach_two_inputs_one_coin:
  "reaches_kernel_check (one_coin_env (sample_coin stake_script OUTPUT_STANDARD v))
     sample_state sample_tip (two_input_tx w) (sample_coin stake_script OUTPUT_STANDARD v)
     sample_state sample_block"
  by (simp add: reaches_kernel_check_def sample_defs kernel_coin_def live_coin_def
        nDepth_of_def nRequiredDepth_of_def signed_divide_int_def)

lemma reach_two_coins:
  "reaches_kernel_check (two_coin_env (sample_coin stake_script OUTPUT_STANDARD v) c2)
     sample_state sample_tip (two_input_tx w) (sample_coin stake_script OUTPUT_STANDARD v)
     sample_state sample_block"
  by (simp add: reaches_kernel_check_def sample_defs kernel_coin_def live_coin_def
        nDepth_of_def nRequiredDepth_of_def signed_divide_int_def)

lemma sample_kernel_passes:
  "CheckStakeKernelHash sample_hash sample_tip 0x1e0fffff (idx_nTime sample_block)
     1000000000 kernel_prevout 1600000256 0 0
   = (True, None, 76, weighted_target 0x1e0fffff 1000000000)"
proof -
  have c: "compact_ok 0x1e0fffff"
    by (simp add: compact_ok_def sample_compact)
  show ?thesis
    by (simp add: CheckStakeKernelHash_cases c sample_stream_hash wt_s1 sample_block_def)
qed

lemma wt_s5: "weighted_target 0x1e0fffff 100 = push_bit 216 104857500"
  by (simp add: weighted_target_def sample_compact)

lemma sample_kernel_passes_100:
  "CheckStakeKernelHash sample_hash sample_tip 0x1e0fffff (idx_nTime sample_block)
     100 kernel_prevout 1600000256 0 0
   = (True, None, 76, weighted_target 0x1e0fffff 100)"
proof -
  have c: "compact_ok 0x1e0fffff"
    by (simp add: compact_ok_def sample_compact)
  show ?thesis
    by (simp add: CheckStakeKernelHash_cases c sample_stream_hash wt_s5 sample_block_def)
qed

lemma two_coin_inputs:
  "list_all (good_input (two_coin_env (sample_coin stake_script OUTPUT_STANDARD 100)
                (sample_coin stake_script OUTPUT_STANDARD 50)) stake_script)
     (tl (vin (two_input_tx v)))"
  "map (input_value (two_coin_env (sample_coin stake_script OUTPUT_STANDARD 100)
                (sample_coin stake_script OUTPUT_STANDARD 50))) (tl (vin (two_input_tx v))) = [50]"
  "list_all good_output (vpout (two_input_tx v))"
  "map txo_value (filter (pays_kernel stake_script) (vpout (two_input_tx v))) = [v]"
  "HasIsCoinstakeOp (two_coin_env (sample_coin stake_script OUTPUT_STANDARD 100)
                (sample_coin stake_script OUTPUT_STANDARD 50)) stake_script"
  by (simp_all add: sample_defs good_input_def input_value_def input_coin_def live_coin_def
      good_output_def pays_kernel_def)

section \<open>The claims\<close>

text \<open>
  Claim C1, as stated, fails, in two ways. The structural, depth and script
  checks pass and the hash (76) is at most the weighted target, yet the kernel
  check fails, because the block time is before the kernel block's time (line
  132). And with the target \<open>2^232\<close> and a kernel coin of value \<open>2^24\<close> every
  check before the comparison passes and the hash (76) is at most the target
  multiplied by the value, yet the coinstake is rejected: the product is taken in
  256 bits and wraps to 0.
\<close>

theorem kernel_check_preconditions_counterexample:
  "reaches_kernel_check (one_coin_env (sample_coin stake_script OUTPUT_STANDARD 1000000000))
     sample_state sample_tip kernel_only_tx (sample_coin stake_script OUTPUT_STANDARD 1000000000)
     sample_state sample_block
   \<and> hash_pos (one_coin_env (sample_coin stake_script OUTPUT_STANDARD 1000000000)) sample_tip
        sample_block kernel_prevout (ucast (1599999999 :: i64))
       \<le> weighted_target 0x1e0fffff 1000000000
   \<and> \<not> fst (CheckStakeKernelHash sample_hash sample_tip 0x1e0fffff (idx_nTime sample_block)
              1000000000 kernel_prevout (ucast (1599999999 :: i64)) 0 0)
   \<and> \<not> fst (CheckProofOfStake (one_coin_env (sample_coin stake_script OUTPUT_STANDARD 1000000000))
              sample_state sample_tip kernel_only_tx 1599999999 0x1e0fffff 0 0)
   \<and> reaches_kernel_check (one_coin_env (sample_coin stake_script OUTPUT_STANDARD 16777216))
        sample_state sample_tip kernel_only_tx (sample_coin stake_script OUTPUT_STANDARD 16777216)
        sample_state sample_block
   \<and> idx_nTime sample_block \<le> ucast (1600000256 :: i64)
   \<and> compact_ok 0x20000001
   \<and> unat (hash_pos (one_coin_env (sample_coin stake_script OUTPUT_STANDARD 16777216)) sample_tip
              sample_block kernel_prevout (ucast (1600000256 :: i64)))
       \<le> unat (fst (SetCompact 0x20000001)) * unat (16777216 :: i64)
   \<and> CheckProofOfStake (one_coin_env (sample_coin stake_script OUTPUT_STANDARD 16777216))
        sample_state sample_tip kernel_only_tx 1600000256 0x20000001 0 0
       = (False, Invalid sample_state DOS_1 ''check-kernel-failed'', 76, 0)"
proof -
  have a: "hash_pos (one_coin_env (sample_coin stake_script OUTPUT_STANDARD 1000000000)) sample_tip
        sample_block kernel_prevout (ucast (1599999999 :: i64))
       \<le> weighted_target 0x1e0fffff 1000000000"
    by (simp add: hash_pos_one_coin wt_s1)
  have early: "CheckStakeKernelHash sample_hash sample_tip 0x1e0fffff (idx_nTime sample_block)
              1000000000 kernel_prevout 1599999999 0 0
            = (False, Some ''nTime violation'', 0, 0)"
    by (simp add: CheckStakeKernelHash_cases sample_block_def)
  have b: "\<not> fst (CheckStakeKernelHash sample_hash sample_tip 0x1e0fffff (idx_nTime sample_block)
              1000000000 kernel_prevout (ucast (1599999999 :: i64)) 0 0)"
    by (simp add: early)
  have c: "\<not> fst (CheckProofOfStake (one_coin_env (sample_coin stake_script OUTPUT_STANDARD 1000000000))
              sample_state sample_tip kernel_only_tx 1599999999 0x1e0fffff 0 0)"
    by (simp add: CheckProofOfStake_at_kernel [OF reach_one_coin] sample_fields early)
  have t: "idx_nTime sample_block \<le> ucast (1600000256 :: i64)"
    by (simp add: sample_block_def)
  have ok: "compact_ok 0x20000001"
    by (simp add: compact_ok_def sample_compact2)
  have d: "unat (76 :: u256) \<le> unat (push_bit 232 1 :: u256) * unat (16777216 :: i64)"
    by simp
  have e: "unat (hash_pos (one_coin_env (sample_coin stake_script OUTPUT_STANDARD 16777216)) sample_tip
              sample_block kernel_prevout (ucast (1600000256 :: i64)))
       \<le> unat (fst (SetCompact 0x20000001)) * unat (16777216 :: i64)"
    using d by (simp add: hash_pos_one_coin sample_compact2)
  have wrapped: "CheckStakeKernelHash sample_hash sample_tip 0x20000001 (idx_nTime sample_block)
              16777216 kernel_prevout 1600000256 0 0 = (False, None, 76, 0)"
    by (simp add: CheckStakeKernelHash_cases ok wt_s3 sample_stream_hash sample_block_def)
  have f: "CheckProofOfStake (one_coin_env (sample_coin stake_script OUTPUT_STANDARD 16777216))
        sample_state sample_tip kernel_only_tx 1600000256 0x20000001 0 0
       = (False, Invalid sample_state DOS_1 ''check-kernel-failed'', 76, 0)"
    by (simp add: CheckProofOfStake_at_kernel [OF reach_one_coin] sample_fields wrapped)
  show ?thesis
    using reach_one_coin [of 1000000000] a b c reach_one_coin [of 16777216] t ok e f
    by blast
qed

text \<open>
  Claim C1, amended. Once the structural, coin, depth and script checks of
  \<open>CheckProofOfStake\<close> have passed, the weighted target is the decoded target
  multiplied by the kernel coin's value (read unsigned) modulo \<open>2^256\<close>, and a
  kernel hash above it is rejected as \<open>check-kernel-failed\<close> at level \<open>DOS_1\<close>.
  When moreover the block time is not before the kernel block's time and the
  target decodes (not negative, no overflow, not zero), the kernel check succeeds
  exactly when the hash is at most the weighted target, the function rejects at
  level \<open>DOS_1\<close> exactly when the hash is above it, and, whenever the product of
  target and value is below \<open>2^256\<close>, the kernel check succeeds exactly when the
  hash is at most that product.
\<close>

theorem target_comparison:
  assumes "reaches_kernel_check env state0 pindexPrev tx c state pindex"
  shows "let hp = hash_pos env pindexPrev pindex (prevout (hd (vin tx))) (ucast nTime);
             wt = weighted_target nBits (nValue (out c));
             product = unat (fst (SetCompact nBits)) * unat (nValue (out c));
             kernel_ok = fst (CheckStakeKernelHash (Hash env) pindexPrev nBits (idx_nTime pindex)
                               (nValue (out c)) (prevout (hd (vin tx))) (ucast nTime) h t);
             r = CheckProofOfStake env state0 pindexPrev tx nTime nBits h t
         in unat wt = product mod 2 ^ 256
          \<and> (wt < hp \<longrightarrow> \<not> fst r \<and> fst (snd r) = Invalid state DOS_1 ''check-kernel-failed'')
          \<and> (idx_nTime pindex \<le> ucast nTime \<and> compact_ok nBits \<longrightarrow>
               (kernel_ok \<longleftrightarrow> hp \<le> wt)
               \<and> ((\<not> fst r \<and> m_result (fst (snd r)) = DOS_1) \<longleftrightarrow> wt < hp)
               \<and> (product < 2 ^ 256 \<longrightarrow> (kernel_ok \<longleftrightarrow> unat hp \<le> product)))"
proof -
  define hp where "hp = hash_pos env pindexPrev pindex (prevout (hd (vin tx))) (ucast nTime)"
  define wt where "wt = weighted_target nBits (nValue (out c))"
  define product where "product = unat (fst (SetCompact nBits)) * unat (nValue (out c))"
  define r where "r = CheckProofOfStake env state0 pindexPrev tx nTime nBits h t"
  define k where "k = CheckStakeKernelHash (Hash env) pindexPrev nBits (idx_nTime pindex)
                       (nValue (out c)) (prevout (hd (vin tx))) (ucast nTime) h t"
  have w: "unat wt = product mod 2 ^ 256"
    unfolding wt_def product_def by (rule unat_weighted_target)
  have r_eq: "r = (case k of (ok, msg, hashPoS, targetPoS) \<Rightarrow>
          if \<not> ok then (False, Invalid state DOS_1 ''check-kernel-failed'', hashPoS, targetPoS)
          else coinstake_op_check env state tx (scriptPubKey (out c)) (nValue (out c))
                 hashPoS targetPoS)"
    unfolding r_def k_def by (rule CheckProofOfStake_at_kernel [OF assms])
  have k_cases: "k = (if ucast nTime < idx_nTime pindex then (False, Some ''nTime violation'', h, t)
      else if \<not> compact_ok nBits then (False, Some ''SetCompact failed.'', h, t)
      else (hp \<le> wt, None, hp, wt))"
    unfolding k_def hp_def wt_def hash_pos_def by (rule CheckStakeKernelHash_cases)
  have fail: "\<not> fst r \<and> fst (snd r) = Invalid state DOS_1 ''check-kernel-failed''" if "\<not> fst k"
    using that by (cases k) (simp add: r_eq)
  have pass: "fst r \<or> m_result (fst (snd r)) \<noteq> DOS_1" if "fst k"
  proof -
    obtain ok st rest where c: "coinstake_op_check env state tx (scriptPubKey (out c))
        (nValue (out c)) (fst (snd (snd k))) (snd (snd (snd k))) = (ok, st, rest)"
      by (metis prod_cases3)
    have "r = (ok, st, rest)"
      using that c by (cases k) (simp add: r_eq)
    moreover have "ok \<or> m_result st \<noteq> DOS_1"
      using coinstake_op_check_level [OF c] by (auto simp: Invalid_def)
    ultimately show ?thesis by simp
  qed
  have gt: "\<not> fst k" if "wt < hp"
    using that by (auto simp: k_cases)
  have ok_iff: "fst k \<longleftrightarrow> hp \<le> wt" if "idx_nTime pindex \<le> ucast nTime" "compact_ok nBits"
  proof -
    have "\<not> ucast nTime < idx_nTime pindex"
      using that(1) by (simp add: not_less)
    then show ?thesis
      using that(2) by (simp add: k_cases)
  qed
  have above: "wt < hp \<longrightarrow> \<not> fst r \<and> fst (snd r) = Invalid state DOS_1 ''check-kernel-failed''"
    using gt fail by blast
  have main: "idx_nTime pindex \<le> ucast nTime \<and> compact_ok nBits \<longrightarrow>
      (fst k \<longleftrightarrow> hp \<le> wt) \<and> ((\<not> fst r \<and> m_result (fst (snd r)) = DOS_1) \<longleftrightarrow> wt < hp)
      \<and> (product < 2 ^ 256 \<longrightarrow> (fst k \<longleftrightarrow> unat hp \<le> product))"
  proof (intro impI, elim conjE)
    assume a: "idx_nTime pindex \<le> ucast nTime" "compact_ok nBits"
    have 1: "fst k \<longleftrightarrow> hp \<le> wt" by (rule ok_iff [OF a])
    have 2: "(\<not> fst r \<and> m_result (fst (snd r)) = DOS_1) \<longleftrightarrow> wt < hp"
    proof
      assume "\<not> fst r \<and> m_result (fst (snd r)) = DOS_1"
      then have "\<not> fst k" using pass by blast
      then show "wt < hp" using 1 by auto
    next
      assume "wt < hp"
      then have "\<not> fst r \<and> fst (snd r) = Invalid state DOS_1 ''check-kernel-failed''"
        using gt fail by blast
      then show "\<not> fst r \<and> m_result (fst (snd r)) = DOS_1"
        by (simp add: Invalid_def)
    qed
    have 3: "fst k \<longleftrightarrow> unat hp \<le> product" if "product < 2 ^ 256"
      using that 1 w by (simp add: word_le_nat_alt)
    show "(fst k \<longleftrightarrow> hp \<le> wt) \<and> ((\<not> fst r \<and> m_result (fst (snd r)) = DOS_1) \<longleftrightarrow> wt < hp)
      \<and> (product < 2 ^ 256 \<longrightarrow> (fst k \<longleftrightarrow> unat hp \<le> product))"
      using 1 2 3 by blast
  qed
  show ?thesis
    unfolding Let_def hp_def [symmetric] wt_def [symmetric] product_def [symmetric]
      r_def [symmetric] k_def [symmetric]
    using w above main by blast
qed

theorem target_comparison_witness:
  "reaches_kernel_check (one_coin_env (sample_coin stake_script OUTPUT_STANDARD 1000000000))
     sample_state sample_tip kernel_only_tx (sample_coin stake_script OUTPUT_STANDARD 1000000000)
     sample_state sample_block
   \<and> idx_nTime sample_block \<le> ucast (1600000256 :: i64)
   \<and> compact_ok 0x1e0fffff
   \<and> fst (CheckStakeKernelHash sample_hash sample_tip 0x1e0fffff (idx_nTime sample_block)
            1000000000 kernel_prevout 1600000256 0 0)
   \<and> weighted_target 0x03000001 50
        < hash_pos (one_coin_env (sample_coin stake_script OUTPUT_STANDARD 50)) sample_tip
            sample_block kernel_prevout 1600000256
   \<and> fst (snd (CheckProofOfStake (one_coin_env (sample_coin stake_script OUTPUT_STANDARD 50))
                 sample_state sample_tip kernel_only_tx 1600000256 0x03000001 0 0))
        = Invalid sample_state DOS_1 ''check-kernel-failed''
   \<and> compact_ok 0x03000001
   \<and> unat (fst (SetCompact 0x03000001)) * unat (50 :: i64) < 2 ^ 256
   \<and> \<not> fst (CheckStakeKernelHash sample_hash sample_tip 0x03000001 (idx_nTime sample_block)
              50 kernel_prevout 1600000256 0 0)"
proof -
  have t: "idx_nTime sample_block \<le> ucast (1600000256 :: i64)"
    by (simp add: sample_block_def)
  have c: "compact_ok 0x1e0fffff"
    by (simp add: compact_ok_def sample_compact)
  have c': "compact_ok 0x03000001"
    by (simp add: compact_ok_def sample_compact)
  have le: "hash_pos (one_coin_env (sample_coin stake_script OUTPUT_STANDARD 1000000000))
       sample_tip sample_block kernel_prevout 1600000256 \<le> weighted_target 0x1e0fffff 1000000000"
    by (simp add: hash_pos_one_coin weighted_target_def sample_compact)
  have gt: "weighted_target 0x03000001 50
        < hash_pos (one_coin_env (sample_coin stake_script OUTPUT_STANDARD 50)) sample_tip
            sample_block kernel_prevout 1600000256"
    by (simp add: hash_pos_one_coin weighted_target_def sample_compact)
  have small: "unat (fst (SetCompact 0x03000001)) * unat (50 :: i64) < 2 ^ 256"
    by (simp add: sample_compact)
  have above: "\<not> unat (hash_pos (one_coin_env (sample_coin stake_script OUTPUT_STANDARD 50))
                    sample_tip sample_block kernel_prevout 1600000256)
                 \<le> unat (fst (SetCompact 0x03000001)) * unat (50 :: i64)"
    by (simp add: hash_pos_one_coin sample_compact)
  have k: "fst (CheckStakeKernelHash sample_hash sample_tip 0x1e0fffff (idx_nTime sample_block)
            1000000000 kernel_prevout 1600000256 0 0)"
    using target_comparison [OF reach_one_coin [of 1000000000],
        where nTime = 1600000256 and nBits = "0x1e0fffff" and h = 0 and t = 0] t c le
    by (simp add: Let_def sample_fields)
  have r: "fst (snd (CheckProofOfStake (one_coin_env (sample_coin stake_script OUTPUT_STANDARD 50))
                 sample_state sample_tip kernel_only_tx 1600000256 0x03000001 0 0))
        = Invalid sample_state DOS_1 ''check-kernel-failed''"
    using target_comparison [OF reach_one_coin [of 50],
        where nTime = 1600000256 and nBits = "0x03000001" and h = 0 and t = 0] gt
    by (simp add: Let_def sample_fields)
  have n: "\<not> fst (CheckStakeKernelHash sample_hash sample_tip 0x03000001 (idx_nTime sample_block)
              50 kernel_prevout 1600000256 0 0)"
  proof
    assume p: "fst (CheckStakeKernelHash sample_hash sample_tip 0x03000001 (idx_nTime sample_block)
              50 kernel_prevout 1600000256 0 0)"
    have small': "unat (fst (SetCompact 0x03000001))
                    * unat (nValue (out (sample_coin stake_script OUTPUT_STANDARD 50))) < 2 ^ 256"
      using small by (simp add: sample_fields)
    note w = target_comparison [OF reach_one_coin [of 50],
        where nTime = 1600000256 and nBits = "0x03000001" and h = 0 and t = 0,
        unfolded Let_def, THEN conjunct2, THEN conjunct2, rule_format, OF conjI [OF t c'],
        THEN conjunct2, THEN conjunct2, rule_format, OF small']
    have "unat (hash_pos (one_coin_env (sample_coin stake_script OUTPUT_STANDARD 50))
                    sample_tip sample_block kernel_prevout 1600000256)
                 \<le> unat (fst (SetCompact 0x03000001)) * unat (50 :: i64)"
      using w p by (simp add: sample_fields)
    then show False
      using above by blast
  qed
  show ?thesis
    using reach_one_coin [of 1000000000] t c k gt r c' small n by blast
qed

text \<open>
  Claim C2, as stated, fails: the claim makes a proof whose hash equals the
  weighted target invalid, and the code accepts it. Here the target is 19, the
  stake 4 and the hash 76.
\<close>

theorem kernel_valid_at_target_counterexample:
  "fst (CheckStakeKernelHash sample_hash sample_tip 0x03000013 1600000000 4 kernel_prevout
          1600000256 0 0)
   \<and> \<not> unat (sample_hash (kernel_stream (bnStakeModifier sample_tip) 1600000000 kernel_prevout
                  1600000256))
         < unat (fst (SetCompact 0x03000013)) * unat (4 :: i64)"
proof -
  have c: "compact_ok 0x03000013"
    by (simp add: compact_ok_def sample_compact2)
  have w: "weighted_target 0x03000013 4 = 76"
    by (simp add: weighted_target_def sample_compact2)
  have "fst (CheckStakeKernelHash sample_hash sample_tip 0x03000013 1600000000 4 kernel_prevout
          1600000256 0 0)"
    by (simp add: CheckStakeKernelHash_cases c w sample_stream_hash)
  moreover have "\<not> unat (76 :: u256) < unat (19 :: u256) * unat (4 :: i64)"
    by simp
  ultimately show ?thesis
    by (simp add: sample_stream_hash sample_compact2)
qed

text \<open>
  Claim C2, amended. For every kernel check whose block time is not before the
  kernel's and whose target decodes, the proof is valid if and only if the hash
  is at most the weighted target, the 256-bit product of the decoded target and
  the stake amount; a hash equal to the weighted target is valid.
\<close>

theorem kernel_valid_iff:
  assumes "nBlockFromTime \<le> nTime" and "compact_ok nBits"
  shows "(fst (CheckStakeKernelHash H pindexPrev nBits nBlockFromTime amount po nTime h t)
     \<longleftrightarrow> H (kernel_stream (bnStakeModifier pindexPrev) nBlockFromTime po nTime)
           \<le> weighted_target nBits amount)"
proof -
  have "\<not> nTime < nBlockFromTime"
    using assms(1) by (simp add: not_less)
  then show ?thesis
    using assms(2) by (simp add: CheckStakeKernelHash_cases)
qed

theorem kernel_valid_iff_witness:
  "(1600000000 :: u32) \<le> 1600000256 \<and> compact_ok 0x03000013
   \<and> sample_hash (kernel_stream (bnStakeModifier sample_tip) 1600000000 kernel_prevout 1600000256)
       = weighted_target 0x03000013 4
   \<and> fst (CheckStakeKernelHash sample_hash sample_tip 0x03000013 1600000000 4 kernel_prevout
            1600000256 0 0)"
proof -
  have c: "compact_ok 0x03000013"
    by (simp add: compact_ok_def sample_compact2)
  have t: "(1600000000 :: u32) \<le> 1600000256"
    by simp
  have w: "weighted_target 0x03000013 4 = 76"
    by (simp add: weighted_target_def sample_compact2)
  have k: "fst (CheckStakeKernelHash sample_hash sample_tip 0x03000013 1600000000 4 kernel_prevout
            1600000256 0 0)"
    using kernel_valid_iff [OF t c, where H = sample_hash and pindexPrev = sample_tip
        and amount = 4 and po = kernel_prevout and h = 0 and t = 0]
    by (simp add: w sample_stream_hash)
  show ?thesis
    using c t k by (simp add: w sample_stream_hash)
qed

text \<open>
  Claim C3. The stream hashed by the kernel check has exactly 76 bytes: the
  modifier in 32 little-endian bytes, the kernel block time in 4, the prevout
  hash in 32, the prevout index in 4 and the block time in 4, in this order; the
  hash the check returns is the chain hash of this stream.
\<close>

theorem kernel_hash_preimage:
  "let s = kernel_stream (bnStakeModifier pindexPrev) nBlockFromTime po nTime in
     length s = 76
     \<and> le_decode (take 32 s) = unat (bnStakeModifier pindexPrev)
     \<and> le_decode (take 4 (drop 32 s)) = unat nBlockFromTime
     \<and> le_decode (take 32 (drop 36 s)) = unat (hash po)
     \<and> le_decode (take 4 (drop 68 s)) = unat (n po)
     \<and> le_decode (drop 72 s) = unat nTime
     \<and> (nBlockFromTime \<le> nTime \<and> compact_ok nBits \<longrightarrow>
           fst (snd (snd (CheckStakeKernelHash H pindexPrev nBits nBlockFromTime amount po
                            nTime h t))) = H s)"
proof -
  have "fst (snd (snd (CheckStakeKernelHash H pindexPrev nBits nBlockFromTime amount po
                            nTime h t)))
          = H (kernel_stream (bnStakeModifier pindexPrev) nBlockFromTime po nTime)"
    if "nBlockFromTime \<le> nTime" "compact_ok nBits"
  proof -
    have "\<not> nTime < nBlockFromTime"
      using that(1) by (simp add: not_less)
    then show ?thesis
      using that(2) by (simp add: CheckStakeKernelHash_cases)
  qed
  then show ?thesis
    by (simp add: Let_def kernel_stream_def length_ser_u32 length_ser_u256
        le_decode_ser_u32 le_decode_ser_u256)
qed

theorem kernel_hash_preimage_witness:
  "(1600000000 :: u32) \<le> 1600000256 \<and> compact_ok 0x1e0fffff
   \<and> fst (snd (snd (CheckStakeKernelHash sample_hash sample_tip 0x1e0fffff 1600000000
                      1000000000 kernel_prevout 1600000256 0 0))) = 76"
proof -
  have c: "compact_ok 0x1e0fffff"
    by (simp add: compact_ok_def sample_compact)
  have t: "(1600000000 :: u32) \<le> 1600000256"
    by simp
  show ?thesis
    using kernel_hash_preimage [where pindexPrev = sample_tip and nBlockFromTime = 1600000000
        and po = kernel_prevout and nTime = 1600000256 and nBits = "0x1e0fffff"
        and H = sample_hash and amount = 1000000000 and h = 0 and t = 0] c t
    by (simp add: Let_def sample_hash_def)
qed

text \<open>
  Claim C4, as stated, fails: the product is taken in 256 bits and wraps. With
  the target \<open>2^232\<close> a stake of 1 is accepted and the larger stake \<open>2^24\<close> is
  rejected (its weighted target is 0), although the hash is below the
  arbitrary-precision product; with \<open>nBits = 0x1e0fffff\<close> the stake \<open>10^9\<close> gets a
  smaller weighted target than the stake \<open>2^20\<close>.
\<close>

theorem larger_stake_smaller_target_counterexample:
  "fst (CheckStakeKernelHash sample_hash sample_tip 0x20000001 1600000000 1 kernel_prevout
          1600000256 0 0)
   \<and> \<not> fst (CheckStakeKernelHash sample_hash sample_tip 0x20000001 1600000000 16777216
              kernel_prevout 1600000256 0 0)
   \<and> unat (sample_hash (kernel_stream (bnStakeModifier sample_tip) 1600000000 kernel_prevout
              1600000256))
        \<le> unat (fst (SetCompact 0x20000001)) * unat (16777216 :: i64)
   \<and> weighted_target 0x1e0fffff 1000000000 < weighted_target 0x1e0fffff 1048576"
proof -
  have c: "compact_ok 0x20000001"
    by (simp add: compact_ok_def sample_compact2)
  have a: "fst (CheckStakeKernelHash sample_hash sample_tip 0x20000001 1600000000 1 kernel_prevout
          1600000256 0 0)"
    by (simp add: CheckStakeKernelHash_cases c wt_s4 sample_stream_hash)
  have b: "\<not> fst (CheckStakeKernelHash sample_hash sample_tip 0x20000001 1600000000 16777216
              kernel_prevout 1600000256 0 0)"
    by (simp add: CheckStakeKernelHash_cases c wt_s3 sample_stream_hash)
  have d: "unat (76 :: u256) \<le> unat (push_bit 232 1 :: u256) * unat (16777216 :: i64)"
    by simp
  have e: "weighted_target 0x1e0fffff 1000000000 < weighted_target 0x1e0fffff 1048576"
    by (simp add: wt_s1 wt_s2)
  show ?thesis
    using a b d e by (simp add: sample_stream_hash sample_compact2)
qed

text \<open>
  Claim C4, amended. For every kernel check that passes the time and decoding
  checks, the weighted target is the product of target and stake amount (read
  unsigned) modulo \<open>2^256\<close>, and the hash is compared with that; whenever the
  product is below \<open>2^256\<close> the comparison is the one on arbitrary-precision
  integers, and a larger stake whose product is below \<open>2^256\<close> never has a
  smaller weighted target.
\<close>

theorem weighted_target_wraps:
  assumes "nBlockFromTime \<le> nTime" and "compact_ok nBits"
  shows "let T = unat (fst (SetCompact nBits));
             r = CheckStakeKernelHash H pindexPrev nBits nBlockFromTime amount po nTime h t;
             hp = unat (H (kernel_stream (bnStakeModifier pindexPrev) nBlockFromTime po nTime))
         in unat (snd (snd (snd r))) = (T * unat amount) mod 2 ^ 256
          \<and> (fst r \<longleftrightarrow> hp \<le> (T * unat amount) mod 2 ^ 256)
          \<and> (T * unat amount < 2 ^ 256 \<longrightarrow> (fst r \<longleftrightarrow> hp \<le> T * unat amount))
          \<and> (\<forall>amount'. unat amount \<le> unat amount' \<and> T * unat amount' < 2 ^ 256 \<longrightarrow>
                weighted_target nBits amount \<le> weighted_target nBits amount')"
proof -
  define T where "T = unat (fst (SetCompact nBits))"
  define r where "r = CheckStakeKernelHash H pindexPrev nBits nBlockFromTime amount po nTime h t"
  define hw where "hw = H (kernel_stream (bnStakeModifier pindexPrev) nBlockFromTime po nTime)"
  have "\<not> nTime < nBlockFromTime"
    using assms(1) by (simp add: not_less)
  then have r_eq: "r = (hw \<le> weighted_target nBits amount, None, hw, weighted_target nBits amount)"
    using assms(2) by (simp add: r_def hw_def CheckStakeKernelHash_cases)
  have wt: "unat (weighted_target nBits a) = (T * unat a) mod 2 ^ 256" for a
    by (simp add: T_def unat_weighted_target)
  have 1: "unat (snd (snd (snd r))) = (T * unat amount) mod 2 ^ 256"
    by (simp add: r_eq wt)
  have 2: "fst r \<longleftrightarrow> unat hw \<le> (T * unat amount) mod 2 ^ 256"
    by (simp add: r_eq word_le_nat_alt wt)
  have 3: "fst r \<longleftrightarrow> unat hw \<le> T * unat amount" if "T * unat amount < 2 ^ 256"
    using that 2 by simp
  have 4: "weighted_target nBits amount \<le> weighted_target nBits amount'"
    if "unat amount \<le> unat amount'" "T * unat amount' < 2 ^ 256" for amount'
  proof -
    have le: "T * unat amount \<le> T * unat amount'"
      using that(1) by simp
    then have "T * unat amount < 2 ^ 256"
      using that(2) by (rule le_less_trans)
    then show ?thesis
      using that(2) le by (simp add: word_le_nat_alt wt)
  qed
  show ?thesis
    unfolding Let_def T_def [symmetric] r_def [symmetric] hw_def [symmetric]
    using 1 2 3 4 by blast
qed


theorem weighted_target_wraps_witness:
  "(1600000000 :: u32) \<le> 1600000256 \<and> compact_ok 0x03000013
   \<and> unat (fst (SetCompact 0x03000013)) * unat (4 :: i64) < 2 ^ 256
   \<and> unat (4 :: i64) \<le> unat (5 :: i64)
   \<and> unat (fst (SetCompact 0x03000013)) * unat (5 :: i64) < 2 ^ 256
   \<and> fst (CheckStakeKernelHash sample_hash sample_tip 0x03000013 1600000000 4 kernel_prevout
            1600000256 0 0)
   \<and> weighted_target 0x03000013 4 \<le> weighted_target 0x03000013 5"
proof -
  have c: "compact_ok 0x03000013"
    by (simp add: compact_ok_def sample_compact2)
  have t: "(1600000000 :: u32) \<le> 1600000256"
    by simp
  note w = weighted_target_wraps [OF t c, where H = sample_hash and pindexPrev = sample_tip
        and amount = 4 and po = kernel_prevout and h = 0 and t = 0, unfolded Let_def]
  have b4: "unat (fst (SetCompact 0x03000013)) * unat (4 :: i64) < 2 ^ 256"
    by (simp add: sample_compact2)
  have b5: "unat (fst (SetCompact 0x03000013)) * unat (5 :: i64) < 2 ^ 256"
    by (simp add: sample_compact2)
  have k: "fst (CheckStakeKernelHash sample_hash sample_tip 0x03000013 1600000000 4 kernel_prevout
            1600000256 0 0)"
    using w [THEN conjunct2, THEN conjunct2, THEN conjunct1] b4
    by (simp add: sample_compact2 sample_stream_hash)
  have m: "weighted_target 0x03000013 4 \<le> weighted_target 0x03000013 5"
    using w [THEN conjunct2, THEN conjunct2, THEN conjunct2, THEN spec, of 5] b5
    by simp
  show ?thesis
    using c t b4 b5 k m by simp
qed

text \<open>
  Claim C5, as stated, fails: an extra input that is in neither the live set
  nor the archive makes \<open>CheckProofOfStake\<close> reject with \<open>prevout-not-in-chain\<close>
  at level \<open>DOS_20\<close>, not with \<open>mixed-prevout-scripts\<close> or \<open>invalid-prevout\<close> at
  level \<open>DOS_100\<close>.
\<close>

theorem unresolved_extra_input_counterexample:
  "HasIsCoinstakeOp (one_coin_env (sample_coin stake_script OUTPUT_STANDARD 1000000000)) stake_script
   \<and> input_coin (one_coin_env (sample_coin stake_script OUTPUT_STANDARD 1000000000))
        (prevout (hd (tl (vin (two_input_tx 1000000000))))) = None
   \<and> CheckProofOfStake (one_coin_env (sample_coin stake_script OUTPUT_STANDARD 1000000000))
        sample_state sample_tip (two_input_tx 1000000000) 1600000256 0x1e0fffff 0 0
       = (False, Invalid sample_state DOS_20 ''prevout-not-in-chain'', 76,
          weighted_target 0x1e0fffff 1000000000)"
proof -
  have a: "HasIsCoinstakeOp (one_coin_env (sample_coin stake_script OUTPUT_STANDARD 1000000000))
             stake_script"
    by (simp add: sample_defs)
  have b: "input_coin (one_coin_env (sample_coin stake_script OUTPUT_STANDARD 1000000000))
        (prevout (hd (tl (vin (two_input_tx 1000000000))))) = None"
    by (simp add: sample_defs input_coin_def live_coin_def)
  have s: "coinstake_op_check (one_coin_env (sample_coin stake_script OUTPUT_STANDARD 1000000000))
             sample_state (two_input_tx 1000000000) stake_script 1000000000 hp tp
           = (False, Invalid sample_state DOS_20 ''prevout-not-in-chain'', hp, tp)" for hp tp
    using a b by (simp add: coinstake_op_check_def two_input_tx_def)
  have c: "CheckProofOfStake (one_coin_env (sample_coin stake_script OUTPUT_STANDARD 1000000000))
        sample_state sample_tip (two_input_tx 1000000000) 1600000256 0x1e0fffff 0 0
       = (False, Invalid sample_state DOS_20 ''prevout-not-in-chain'', 76,
          weighted_target 0x1e0fffff 1000000000)"
    by (simp add: CheckProofOfStake_at_kernel [OF reach_two_inputs_one_coin] sample_fields
        sample_kernel_passes s)
  show ?thesis
    using a b c by blast
qed

text \<open>
  Claim C5, amended. When the kernel script has the coinstake-op pattern and the
  kernel check has passed, \<open>CheckProofOfStake\<close> accepts if and only if every
  extra input resolves (live set, else archive) to a Standard coin with the
  kernel script, every output is Standard or Data, and the values of the
  Standard outputs paying the kernel script sum to at least the values of all
  inputs, the kernel included (signed 64-bit sums; the integer sums whenever
  these fit in 64 bits). Otherwise it rejects: by the first offending input with
  \<open>prevout-not-in-chain\<close> (\<open>DOS_20\<close>) when it is in neither set,
  \<open>invalid-prevout\<close> (\<open>DOS_100\<close>) when its coin is not Standard,
  \<open>mixed-prevout-scripts\<close> (\<open>DOS_100\<close>) when its script differs; with
  \<open>bad-output-type\<close> (\<open>DOS_100\<close>) for an output that is neither Standard nor
  Data; with \<open>verify-amount-script-failed\<close> (\<open>DOS_100\<close>) when the sum paid
  back is too small.
\<close>

theorem coinstake_op_rule:
  assumes "reaches_kernel_check env state0 pindexPrev tx c state pindex"
    and "fst (CheckStakeKernelHash (Hash env) pindexPrev nBits (idx_nTime pindex)
                (nValue (out c)) (prevout (hd (vin tx))) (ucast nTime) h t)"
    and "HasIsCoinstakeOp env (scriptPubKey (out c))"
  shows "let k = scriptPubKey (out c);
             extras = tl (vin tx);
             in_values = nValue (out c) # map (input_value env) extras;
             out_values = map txo_value (filter (pays_kernel k) (vpout tx));
             r = CheckProofOfStake env state0 pindexPrev tx nTime nBits h t
         in (fst r \<longleftrightarrow> list_all (good_input env k) extras \<and> list_all good_output (vpout tx)
                       \<and> sint (sum_list in_values) \<le> sint (sum_list out_values))
          \<and> (- (2 ^ 63) \<le> sum_list (map sint in_values) \<and> sum_list (map sint in_values) < 2 ^ 63
              \<and> - (2 ^ 63) \<le> sum_list (map sint out_values)
              \<and> sum_list (map sint out_values) < 2 ^ 63 \<longrightarrow>
                (fst r \<longleftrightarrow> list_all (good_input env k) extras \<and> list_all good_output (vpout tx)
                   \<and> sum_list (map sint in_values) \<le> sum_list (map sint out_values)))
          \<and> (\<forall>bad. find (\<lambda>txin. \<not> good_input env k txin) extras = Some bad \<longrightarrow>
                \<not> fst r \<and> fst (snd r) = Invalid state (fst (input_error env k bad))
                                           (snd (input_error env k bad)))
          \<and> (list_all (good_input env k) extras \<and> \<not> list_all good_output (vpout tx) \<longrightarrow>
                \<not> fst r \<and> fst (snd r) = Invalid state DOS_100 ''bad-output-type'')
          \<and> (list_all (good_input env k) extras \<and> list_all good_output (vpout tx)
              \<and> sint (sum_list out_values) < sint (sum_list in_values) \<longrightarrow>
                \<not> fst r \<and> fst (snd r) = Invalid state DOS_100 ''verify-amount-script-failed'')"
proof -
  define k where "k = scriptPubKey (out c)"
  define extras where "extras = tl (vin tx)"
  define in_values where "in_values = nValue (out c) # map (input_value env) extras"
  define out_values where "out_values = map txo_value (filter (pays_kernel k) (vpout tx))"
  define r where "r = CheckProofOfStake env state0 pindexPrev tx nTime nBits h t"
  define bad where "bad = find (\<lambda>txin. \<not> good_input env k txin) extras"
  obtain msg hp tp where kh: "CheckStakeKernelHash (Hash env) pindexPrev nBits (idx_nTime pindex)
      (nValue (out c)) (prevout (hd (vin tx))) (ucast nTime) h t = (True, msg, hp, tp)"
    using assms(2) by (metis fst_conv prod_cases4)
  have r_eq: "r = (case bad of
        Some b \<Rightarrow> (False, Invalid state (fst (input_error env k b)) (snd (input_error env k b)),
                   hp, tp)
      | None \<Rightarrow>
          if \<not> list_all good_output (vpout tx)
          then (False, Invalid state DOS_100 ''bad-output-type'', hp, tp)
          else if sint (sum_list out_values) < sint (sum_list in_values)
          then (False, Invalid state DOS_100 ''verify-amount-script-failed'', hp, tp)
          else (True, state, hp, tp))"
    unfolding r_def k_def extras_def in_values_def out_values_def bad_def
    using assms(3)
    by (simp add: CheckProofOfStake_at_kernel [OF assms(1)] kh coinstake_op_check_cases
        word_sless_alt)
  have good: "list_all (good_input env k) extras \<longleftrightarrow> bad = None"
    by (simp add: bad_def find_None_list_all)
  have 1: "fst r \<longleftrightarrow> list_all (good_input env k) extras \<and> list_all good_output (vpout tx)
                       \<and> sint (sum_list in_values) \<le> sint (sum_list out_values)"
    by (cases bad) (auto simp: r_eq good)
  have 2: "fst r \<longleftrightarrow> list_all (good_input env k) extras \<and> list_all good_output (vpout tx)
                   \<and> sum_list (map sint in_values) \<le> sum_list (map sint out_values)"
    if "- (2 ^ 63) \<le> sum_list (map sint in_values)" "sum_list (map sint in_values) < 2 ^ 63"
      "- (2 ^ 63) \<le> sum_list (map sint out_values)" "sum_list (map sint out_values) < 2 ^ 63"
    using 1 sint_sum_list_exact [OF that(1,2)] sint_sum_list_exact [OF that(3,4)] by simp
  have 3: "\<not> fst r \<and> fst (snd r) = Invalid state (fst (input_error env k b))
                                           (snd (input_error env k b))"
    if "bad = Some b" for b
    using that by (simp add: r_eq)
  have 4: "\<not> fst r \<and> fst (snd r) = Invalid state DOS_100 ''bad-output-type''"
    if "list_all (good_input env k) extras" "\<not> list_all good_output (vpout tx)"
    using that by (simp add: r_eq good)
  have 5: "\<not> fst r \<and> fst (snd r) = Invalid state DOS_100 ''verify-amount-script-failed''"
    if "list_all (good_input env k) extras" "list_all good_output (vpout tx)"
      "sint (sum_list out_values) < sint (sum_list in_values)"
    using that by (simp add: r_eq good)
  show ?thesis
    unfolding Let_def k_def [symmetric] extras_def [symmetric] in_values_def [symmetric]
      out_values_def [symmetric] r_def [symmetric] bad_def [symmetric]
    using 1 2 3 4 5 by blast
qed

theorem coinstake_op_rule_witness:
  "reaches_kernel_check (two_coin_env (sample_coin stake_script OUTPUT_STANDARD 100)
        (sample_coin stake_script OUTPUT_STANDARD 50))
     sample_state sample_tip (two_input_tx 140) (sample_coin stake_script OUTPUT_STANDARD 100)
     sample_state sample_block
   \<and> fst (CheckStakeKernelHash sample_hash sample_tip 0x1e0fffff (idx_nTime sample_block)
            100 kernel_prevout 1600000256 0 0)
   \<and> HasIsCoinstakeOp (two_coin_env (sample_coin stake_script OUTPUT_STANDARD 100)
        (sample_coin stake_script OUTPUT_STANDARD 50)) stake_script
   \<and> fst (CheckProofOfStake (two_coin_env (sample_coin stake_script OUTPUT_STANDARD 100)
             (sample_coin stake_script OUTPUT_STANDARD 50))
          sample_state sample_tip (two_input_tx 150) 1600000256 0x1e0fffff 0 0)
   \<and> fst (snd (CheckProofOfStake (two_coin_env (sample_coin stake_script OUTPUT_STANDARD 100)
                  (sample_coin stake_script OUTPUT_STANDARD 50))
               sample_state sample_tip (two_input_tx 140) 1600000256 0x1e0fffff 0 0))
       = Invalid sample_state DOS_100 ''verify-amount-script-failed''"
proof -
  have k: "fst (CheckStakeKernelHash
             (Hash (two_coin_env (sample_coin stake_script OUTPUT_STANDARD 100)
                      (sample_coin stake_script OUTPUT_STANDARD 50)))
             sample_tip 0x1e0fffff (idx_nTime sample_block)
             (nValue (out (sample_coin stake_script OUTPUT_STANDARD 100)))
             (prevout (hd (vin (two_input_tx v)))) (ucast (1600000256 :: i64)) 0 0)" for v
    by (simp add: sample_fields sample_kernel_passes_100)
  have op: "HasIsCoinstakeOp (two_coin_env (sample_coin stake_script OUTPUT_STANDARD 100)
                (sample_coin stake_script OUTPUT_STANDARD 50))
              (scriptPubKey (out (sample_coin stake_script OUTPUT_STANDARD 100)))"
    by (simp add: sample_fields two_coin_inputs)
  note w = coinstake_op_rule [OF reach_two_coins k op, unfolded Let_def sample_fields]
  have 1: "fst (CheckProofOfStake (two_coin_env (sample_coin stake_script OUTPUT_STANDARD 100)
             (sample_coin stake_script OUTPUT_STANDARD 50))
          sample_state sample_tip (two_input_tx 150) 1600000256 0x1e0fffff 0 0)"
    using w [of 150, THEN conjunct1] by (simp add: two_coin_inputs)
  have 2: "fst (snd (CheckProofOfStake (two_coin_env (sample_coin stake_script OUTPUT_STANDARD 100)
                  (sample_coin stake_script OUTPUT_STANDARD 50))
               sample_state sample_tip (two_input_tx 140) 1600000256 0x1e0fffff 0 0))
       = Invalid sample_state DOS_100 ''verify-amount-script-failed''"
    using w [of 140, THEN conjunct2, THEN conjunct2, THEN conjunct2, THEN conjunct2]
    by (simp add: two_coin_inputs)
  show ?thesis
    using reach_two_coins [of 100 _ 140] k [of 140] two_coin_inputs(5) 1 2
    by (simp add: sample_fields)
qed

text \<open>
  Claim C6. For a coinstake that reaches the depth check with kernel coin \<open>c\<close>,
  \<open>CheckProofOfStake\<close> rejects with \<open>invalid-stake-depth\<close> at level \<open>DOS_100\<close>
  exactly when the depth is below the required depth, in the 32-bit arithmetic
  of the source; and for the heights and confirmation counts of a chain (tip
  height not negative, coin height below \<open>2^31\<close>, at most \<open>2^31\<close>
  confirmations) that is: exactly when \<open>d = pindexPrev.height - coin.height\<close>
  is not at least \<open>min(stake_min_confirmations - 1, pindexPrev.height / 2)\<close>.
\<close>

theorem stake_depth_rule:
  assumes "IsCoinStake env tx" and "vin tx \<noteq> []"
    and "kernel_coin env state0 pindexPrev (hd (vin tx)) = Inr (c, state)"
    and "nType c = OUTPUT_STANDARD" and "m_chain env (nHeight c) = Some pindex"
  shows "(CheckProofOfStake env state0 pindexPrev tx nTime nBits h t
            = (False, Invalid state DOS_100 ''invalid-stake-depth'', h, t)
          \<longleftrightarrow> nDepth_of pindexPrev c < nRequiredDepth_of env pindexPrev)
       \<and> (0 \<le> sint (idx_nHeight pindexPrev) \<and> uint (nHeight c) < 2 ^ 31
            \<and> uint (GetStakeMinConfirmations env) \<le> 2 ^ 31 \<longrightarrow>
           (CheckProofOfStake env state0 pindexPrev tx nTime nBits h t
              = (False, Invalid state DOS_100 ''invalid-stake-depth'', h, t)
            \<longleftrightarrow> \<not> (sint (idx_nHeight pindexPrev) - uint (nHeight c)
                    \<ge> min (uint (GetStakeMinConfirmations env) - 1)
                          (sint (idx_nHeight pindexPrev) div 2))))"
proof -
  define r where "r = CheckProofOfStake env state0 pindexPrev tx nTime nBits h t"
  have 1: "r = (False, Invalid state DOS_100 ''invalid-stake-depth'', h, t)
          \<longleftrightarrow> nDepth_of pindexPrev c < nRequiredDepth_of env pindexPrev"
  proof (cases "nDepth_of pindexPrev c < nRequiredDepth_of env pindexPrev")
    case True
    then show ?thesis
      using assms by (simp add: r_def CheckProofOfStake_def Let_def)
  next
    case False
    then have "nRequiredDepth_of env pindexPrev \<le> nDepth_of pindexPrev c"
      by simp
    from CheckProofOfStake_past_depth [OF assms this, of nTime nBits h t]
    have "r \<noteq> (False, Invalid state DOS_100 ''invalid-stake-depth'', h, t)"
      unfolding r_def [symmetric] by (auto simp: Invalid_def)
    then show ?thesis
      using False by simp
  qed
  have 2: "r = (False, Invalid state DOS_100 ''invalid-stake-depth'', h, t)
            \<longleftrightarrow> \<not> (sint (idx_nHeight pindexPrev) - uint (nHeight c)
                    \<ge> min (uint (GetStakeMinConfirmations env) - 1)
                          (sint (idx_nHeight pindexPrev) div 2))"
    if "0 \<le> sint (idx_nHeight pindexPrev)" "uint (nHeight c) < 2 ^ 31"
      "uint (GetStakeMinConfirmations env) \<le> 2 ^ 31"
    using 1 nDepth_of_int [OF that(1,2)] nRequiredDepth_of_int [OF that(1,3)]
    by (simp add: not_le)
  show ?thesis
    unfolding r_def [symmetric] using 1 2 by blast
qed

theorem stake_depth_rule_witness:
  "IsCoinStake (one_coin_env (sample_coin stake_script OUTPUT_STANDARD 1000000000)) kernel_only_tx
   \<and> vin kernel_only_tx \<noteq> []
   \<and> kernel_coin (one_coin_env (sample_coin stake_script OUTPUT_STANDARD 1000000000)) sample_state
        near_tip (hd (vin kernel_only_tx))
       = Inr (sample_coin stake_script OUTPUT_STANDARD 1000000000, sample_state)
   \<and> nType (sample_coin stake_script OUTPUT_STANDARD 1000000000) = OUTPUT_STANDARD
   \<and> m_chain (one_coin_env (sample_coin stake_script OUTPUT_STANDARD 1000000000))
        (nHeight (sample_coin stake_script OUTPUT_STANDARD 1000000000)) = Some sample_block
   \<and> 0 \<le> sint (idx_nHeight near_tip)
   \<and> uint (nHeight (sample_coin stake_script OUTPUT_STANDARD 1000000000)) < 2 ^ 31
   \<and> uint (GetStakeMinConfirmations
              (one_coin_env (sample_coin stake_script OUTPUT_STANDARD 1000000000))) \<le> 2 ^ 31
   \<and> CheckProofOfStake (one_coin_env (sample_coin stake_script OUTPUT_STANDARD 1000000000))
        sample_state near_tip kernel_only_tx 1600000256 0x1e0fffff 0 0
       = (False, Invalid sample_state DOS_100 ''invalid-stake-depth'', 0, 0)"
proof -
  have a: "IsCoinStake (one_coin_env (sample_coin stake_script OUTPUT_STANDARD 1000000000))
             kernel_only_tx"
    by (simp add: sample_defs)
  have b: "vin kernel_only_tx \<noteq> []"
    by (simp add: sample_defs)
  have c: "kernel_coin (one_coin_env (sample_coin stake_script OUTPUT_STANDARD 1000000000))
        sample_state near_tip (hd (vin kernel_only_tx))
       = Inr (sample_coin stake_script OUTPUT_STANDARD 1000000000, sample_state)"
    by (simp add: sample_defs kernel_coin_def live_coin_def)
  have d: "nType (sample_coin stake_script OUTPUT_STANDARD 1000000000) = OUTPUT_STANDARD"
    by (simp add: sample_defs)
  have e: "m_chain (one_coin_env (sample_coin stake_script OUTPUT_STANDARD 1000000000))
        (nHeight (sample_coin stake_script OUTPUT_STANDARD 1000000000)) = Some sample_block"
    by (simp add: sample_defs)
  have f: "0 \<le> sint (idx_nHeight near_tip)"
    by (simp add: sample_defs)
  have g: "uint (nHeight (sample_coin stake_script OUTPUT_STANDARD 1000000000)) < 2 ^ 31"
    by (simp add: sample_defs)
  have i: "uint (GetStakeMinConfirmations
              (one_coin_env (sample_coin stake_script OUTPUT_STANDARD 1000000000))) \<le> 2 ^ 31"
    by (simp add: sample_defs)
  have v: "\<not> (sint (idx_nHeight near_tip)
                 - uint (nHeight (sample_coin stake_script OUTPUT_STANDARD 1000000000))
               \<ge> min (uint (GetStakeMinConfirmations
                      (one_coin_env (sample_coin stake_script OUTPUT_STANDARD 1000000000))) - 1)
                     (sint (idx_nHeight near_tip) div 2))"
    by (simp add: sample_defs)
  have r: "CheckProofOfStake (one_coin_env (sample_coin stake_script OUTPUT_STANDARD 1000000000))
        sample_state near_tip kernel_only_tx 1600000256 0x1e0fffff 0 0
       = (False, Invalid sample_state DOS_100 ''invalid-stake-depth'', 0, 0)"
    using stake_depth_rule [OF a b c d e, where nTime = 1600000256 and nBits = "0x1e0fffff"
        and h = 0 and t = 0] f g i v
    by blast
  show ?thesis
    using a b c d e f g i r by blast
qed

text \<open>
  Claim C7, as stated, fails: with the kernel prevout only in the archive and
  spent 5 blocks below the tip, \<open>CheckProofOfStake\<close> still rejects with
  \<open>invalid-prevout\<close> at level \<open>DOS_100\<close> when the archived coin is not of type
  Standard, so that rejection does not occur only for kernels spent too long ago.
\<close>

theorem spent_kernel_not_standard_counterexample:
  "live_coin (archive_env (sample_coin stake_script OUTPUT_DATA 1000000000) 995) kernel_prevout = None
   \<and> ReadSpentCache (archive_env (sample_coin stake_script OUTPUT_DATA 1000000000) 995) kernel_prevout
       = Some \<lparr>coin = sample_coin stake_script OUTPUT_DATA 1000000000, spent_height = 995\<rparr>
   \<and> unat (idx_nHeight sample_tip) - unat (995 :: u32)
       \<le> MAX_REORG_DEPTH (archive_env (sample_coin stake_script OUTPUT_DATA 1000000000) 995)
   \<and> CheckProofOfStake (archive_env (sample_coin stake_script OUTPUT_DATA 1000000000) 995)
        sample_state sample_tip kernel_only_tx 1600000256 0x1e0fffff 0 0
       = (False, Invalid (sample_state\<lparr>nFlags := 32\<rparr>) DOS_100 ''invalid-prevout'', 0, 0)"
  by (simp add: sample_defs live_coin_def kernel_coin_def CheckProofOfStake_def Let_def Invalid_def)

text \<open>
  Claim C7, amended. When the kernel prevout is absent or spent in the live set:
  if it is in the archive, the kernel coin step rejects with \<open>invalid-prevout\<close>
  at level \<open>DOS_100\<close>, the flags untouched, if and only if \<open>fVerifyingDB\<close> is
  not set, the tip height is above the spent height and their difference is
  above \<open>MAX_REORG_DEPTH\<close>; in every other archive-hit case the function goes
  on with the archived coin and \<open>BLOCK_STAKE_KERNEL_SPENT\<close> is set in the state
  it returns (whatever the later checks decide); if it is in neither, the
  function rejects with \<open>prevout-not-found\<close> at level \<open>DOS_20\<close>. Heights are
  read as the \<open>unsigned int\<close> of the source.
\<close>

theorem spent_kernel_rule:
  assumes "IsCoinStake env tx" and "vin tx \<noteq> []"
    and "GetCoin env (prevout (hd (vin tx))) = None
         \<or> (\<exists>c. GetCoin env (prevout (hd (vin tx))) = Some c \<and> IsSpent env c)"
  shows "(\<forall>spent_coin. ReadSpentCache env (prevout (hd (vin tx))) = Some spent_coin \<longrightarrow>
            (let too_old = (\<not> fVerifyingDB env
                   \<and> unat (spent_height spent_coin) < unat (idx_nHeight pindexPrev)
                   \<and> MAX_REORG_DEPTH env
                       < unat (idx_nHeight pindexPrev) - unat (spent_height spent_coin));
                 flagged = state0\<lparr>nFlags := nFlags state0 OR BLOCK_STAKE_KERNEL_SPENT env\<rparr>;
                 r = CheckProofOfStake env state0 pindexPrev tx nTime nBits h t
             in (kernel_coin env state0 pindexPrev (hd (vin tx))
                   = Inl (Invalid state0 DOS_100 ''invalid-prevout'') \<longleftrightarrow> too_old)
              \<and> (too_old \<longrightarrow> r = (False, Invalid state0 DOS_100 ''invalid-prevout'', h, t))
              \<and> (\<not> too_old \<longrightarrow>
                    kernel_coin env state0 pindexPrev (hd (vin tx)) = Inr (coin spent_coin, flagged)
                    \<and> nFlags (fst (snd r)) = nFlags state0 OR BLOCK_STAKE_KERNEL_SPENT env)))
       \<and> (ReadSpentCache env (prevout (hd (vin tx))) = None \<longrightarrow>
            CheckProofOfStake env state0 pindexPrev tx nTime nBits h t
              = (False, Invalid state0 DOS_20 ''prevout-not-found'', h, t))"
proof -
  define po where "po = prevout (hd (vin tx))"
  define r where "r = CheckProofOfStake env state0 pindexPrev tx nTime nBits h t"
  have live: "live_coin env po = None"
    using assms(3) by (auto simp: live_coin_def po_def)
  have rej: "r = (False, rejected, h, t)"
    if "kernel_coin env state0 pindexPrev (hd (vin tx)) = Inl rejected" for rejected
    using that assms(1,2) by (simp add: r_def CheckProofOfStake_def Let_def)
  have miss: "r = (False, Invalid state0 DOS_20 ''prevout-not-found'', h, t)"
    if "ReadSpentCache env po = None"
    using that live by (intro rej) (simp add: kernel_coin_def po_def)
  have hit: "(kernel_coin env state0 pindexPrev (hd (vin tx))
                   = Inl (Invalid state0 DOS_100 ''invalid-prevout'') \<longleftrightarrow> too_old)
              \<and> (too_old \<longrightarrow> r = (False, Invalid state0 DOS_100 ''invalid-prevout'', h, t))
              \<and> (\<not> too_old \<longrightarrow>
                    kernel_coin env state0 pindexPrev (hd (vin tx)) = Inr (coin sc, flagged)
                    \<and> nFlags (fst (snd r)) = nFlags state0 OR BLOCK_STAKE_KERNEL_SPENT env)"
    if sc: "ReadSpentCache env po = Some sc"
      and too_old: "too_old = (\<not> fVerifyingDB env
                   \<and> unat (spent_height sc) < unat (idx_nHeight pindexPrev)
                   \<and> MAX_REORG_DEPTH env < unat (idx_nHeight pindexPrev) - unat (spent_height sc))"
      and flagged: "flagged = state0\<lparr>nFlags := nFlags state0 OR BLOCK_STAKE_KERNEL_SPENT env\<rparr>"
    for sc too_old flagged
  proof -
    have k: "kernel_coin env state0 pindexPrev (hd (vin tx))
               = (if too_old then Inl (Invalid state0 DOS_100 ''invalid-prevout'')
                  else Inr (coin sc, flagged))"
      using live sc
      by (simp add: kernel_coin_def po_def [symmetric] too_old flagged
          reorg_distance [symmetric])
    have 1: "kernel_coin env state0 pindexPrev (hd (vin tx))
                   = Inl (Invalid state0 DOS_100 ''invalid-prevout'') \<longleftrightarrow> too_old"
      by (simp add: k)
    have 2: "r = (False, Invalid state0 DOS_100 ''invalid-prevout'', h, t)" if too_old
      using that by (intro rej) (simp add: k)
    have 3: "nFlags (fst (snd r)) = nFlags state0 OR BLOCK_STAKE_KERNEL_SPENT env"
      if "\<not> too_old"
    proof -
      have "kernel_coin env state0 pindexPrev (hd (vin tx)) = Inr (coin sc, flagged)"
        using that by (simp add: k)
      from CheckProofOfStake_flags [OF assms(1,2) this, of nTime nBits h t]
      show ?thesis
        by (simp add: r_def flagged)
    qed
    show ?thesis
      using 1 2 3 k by simp
  qed
  show ?thesis
    unfolding Let_def r_def [symmetric] po_def [symmetric]
    using hit miss by blast
qed


theorem spent_kernel_rule_witness:
  "IsCoinStake (archive_env (sample_coin stake_script OUTPUT_STANDARD 1000000000) 995) kernel_only_tx
   \<and> vin kernel_only_tx \<noteq> []
   \<and> GetCoin (archive_env (sample_coin stake_script OUTPUT_STANDARD 1000000000) 995)
        (prevout (hd (vin kernel_only_tx))) = None
   \<and> ReadSpentCache (archive_env (sample_coin stake_script OUTPUT_STANDARD 1000000000) 995)
        (prevout (hd (vin kernel_only_tx)))
       = Some \<lparr>coin = sample_coin stake_script OUTPUT_STANDARD 1000000000, spent_height = 995\<rparr>
   \<and> nFlags (fst (snd (CheckProofOfStake
          (archive_env (sample_coin stake_script OUTPUT_STANDARD 1000000000) 995)
          sample_state sample_tip kernel_only_tx 1600000256 0x1e0fffff 0 0))) = 32
   \<and> CheckProofOfStake (archive_env (sample_coin stake_script OUTPUT_STANDARD 1000000000) 995)
        sample_state far_tip kernel_only_tx 1600000256 0x1e0fffff 0 0
       = (False, Invalid sample_state DOS_100 ''invalid-prevout'', 0, 0)"
proof -
  have a: "IsCoinStake (archive_env (sample_coin stake_script OUTPUT_STANDARD 1000000000) 995)
             kernel_only_tx"
    by (simp add: sample_defs)
  have b: "vin kernel_only_tx \<noteq> []"
    by (simp add: sample_defs)
  have g: "GetCoin (archive_env (sample_coin stake_script OUTPUT_STANDARD 1000000000) 995)
        (prevout (hd (vin kernel_only_tx))) = None"
    by (simp add: sample_defs)
  have s: "ReadSpentCache (archive_env (sample_coin stake_script OUTPUT_STANDARD 1000000000) 995)
        (prevout (hd (vin kernel_only_tx)))
       = Some \<lparr>coin = sample_coin stake_script OUTPUT_STANDARD 1000000000, spent_height = 995\<rparr>"
    by (simp add: sample_defs)
  note w = spent_kernel_rule [OF a b disjI1 [OF g], where nTime = 1600000256
      and nBits = "0x1e0fffff" and h = 0 and t = 0 and ?state0.0 = sample_state,
      THEN conjunct1, rule_format, OF s, unfolded Let_def]
  have 1: "nFlags (fst (snd (CheckProofOfStake
          (archive_env (sample_coin stake_script OUTPUT_STANDARD 1000000000) 995)
          sample_state sample_tip kernel_only_tx 1600000256 0x1e0fffff 0 0))) = 32"
    using w [where pindexPrev = sample_tip]
    by (simp add: sample_defs)
  have 2: "CheckProofOfStake (archive_env (sample_coin stake_script OUTPUT_STANDARD 1000000000) 995)
        sample_state far_tip kernel_only_tx 1600000256 0x1e0fffff 0 0
       = (False, Invalid sample_state DOS_100 ''invalid-prevout'', 0, 0)"
    using w [where pindexPrev = far_tip]
    by (simp add: sample_defs)
  show ?thesis
    using a b g s 1 2 by blast
qed

text \<open>
  Claim C8, as stated, fails: a target that decodes to zero (\<open>nBits = 0\<close>) or to
  a negative number (\<open>nBits = 0x04923456\<close>) is rejected at level \<open>DOS_1\<close>, not
  \<open>DOS_100\<close>.
\<close>

theorem compact_failure_dos_counterexample:
  "fst (SetCompact 0) = 0
   \<and> fst (snd (CheckProofOfStake (one_coin_env (sample_coin stake_script OUTPUT_STANDARD 1000000000))
                 sample_state sample_tip kernel_only_tx 1600000256 0 0 0))
        = Invalid sample_state DOS_1 ''check-kernel-failed''
   \<and> fst (snd (SetCompact 0x04923456))
   \<and> fst (snd (CheckProofOfStake (one_coin_env (sample_coin stake_script OUTPUT_STANDARD 1000000000))
                 sample_state sample_tip kernel_only_tx 1600000256 0x04923456 0 0))
        = Invalid sample_state DOS_1 ''check-kernel-failed''
   \<and> m_result (Invalid sample_state DOS_1 ''check-kernel-failed'') \<noteq> DOS_100"
  by (simp add: CheckProofOfStake_at_kernel [OF reach_one_coin] CheckStakeKernelHash_cases
      compact_ok_def sample_compact2 sample_compact3 sample_fields sample_block_def Invalid_def)

text \<open>
  Claim C8, amended. When the decoding of \<open>nBits\<close> yields negative, overflow or a
  zero target, the kernel check fails, and \<open>CheckProofOfStake\<close> (its earlier
  checks passed) rejects as \<open>check-kernel-failed\<close> at level \<open>DOS_1\<close>, leaving
  the two out-parameters as they were.
\<close>

theorem compact_failure_rejected:
  assumes "reaches_kernel_check env state0 pindexPrev tx c state pindex"
    and "SetCompact nBits = (bnTarget, fNegative, fOverflow)"
    and "fNegative \<or> fOverflow \<or> bnTarget = 0"
  shows "\<not> fst (CheckStakeKernelHash (Hash env) pindexPrev nBits (idx_nTime pindex)
               (nValue (out c)) (prevout (hd (vin tx))) (ucast nTime) h t)
       \<and> CheckProofOfStake env state0 pindexPrev tx nTime nBits h t
           = (False, Invalid state DOS_1 ''check-kernel-failed'', h, t)"
proof -
  have "\<not> compact_ok nBits"
    using assms(2,3) by (auto simp: compact_ok_def)
  then have k: "CheckStakeKernelHash (Hash env) pindexPrev nBits (idx_nTime pindex)
               (nValue (out c)) (prevout (hd (vin tx))) (ucast nTime) h t
             = (False, (if ucast nTime < idx_nTime pindex then Some ''nTime violation''
                        else Some ''SetCompact failed.''), h, t)"
    by (simp add: CheckStakeKernelHash_cases)
  show ?thesis
    by (simp add: CheckProofOfStake_at_kernel [OF assms(1)] k)
qed

theorem compact_failure_rejected_witness:
  "reaches_kernel_check (one_coin_env (sample_coin stake_script OUTPUT_STANDARD 1000000000))
     sample_state sample_tip kernel_only_tx (sample_coin stake_script OUTPUT_STANDARD 1000000000)
     sample_state sample_block
   \<and> SetCompact 0x04923456 = (0x12345600, True, False)
   \<and> CheckProofOfStake (one_coin_env (sample_coin stake_script OUTPUT_STANDARD 1000000000))
        sample_state sample_tip kernel_only_tx 1600000256 0x04923456 0 0
        = (False, Invalid sample_state DOS_1 ''check-kernel-failed'', 0, 0)"
  using compact_failure_rejected [OF reach_one_coin [of 1000000000] sample_compact3,
      where nTime = 1600000256 and h = 0 and t = 0]
    reach_one_coin [of 1000000000] sample_compact3
  by simp

text \<open>
  Claim C9. A kernel check returns the \<open>nTime violation\<close> error, with the hash
  and target outputs untouched, exactly when the block time is before the kernel
  coin's block time; and every coinstake that \<open>CheckProofOfStake\<close> accepts has a
  block time (the \<open>uint32_t\<close> the check receives, and the \<open>int64_t\<close> argument
  itself when it is a 32-bit time) that is not before the time of the block of
  the kernel coin.
\<close>

theorem ntime_violation:
  "(CheckStakeKernelHash H pindexPrev nBits nBlockFromTime amount po nTime h t
      = (False, Some ''nTime violation'', h, t)
    \<longleftrightarrow> nTime < nBlockFromTime)
   \<and> (fst (CheckProofOfStake env state0 pindexPrev tx blockTime nBits h t) \<longrightarrow>
        (\<exists>c state pindex. reaches_kernel_check env state0 pindexPrev tx c state pindex
           \<and> idx_nTime pindex \<le> ucast blockTime
           \<and> (0 \<le> sint blockTime \<and> sint blockTime < 2 ^ 32 \<longrightarrow>
                uint (idx_nTime pindex) \<le> sint blockTime)))"
proof -
  have 1: "CheckStakeKernelHash H pindexPrev nBits nBlockFromTime amount po nTime h t
      = (False, Some ''nTime violation'', h, t) \<longleftrightarrow> nTime < nBlockFromTime"
    by (simp add: CheckStakeKernelHash_cases)
  have 2: "\<exists>c state pindex. reaches_kernel_check env state0 pindexPrev tx c state pindex
           \<and> idx_nTime pindex \<le> ucast blockTime
           \<and> (0 \<le> sint blockTime \<and> sint blockTime < 2 ^ 32 \<longrightarrow>
                uint (idx_nTime pindex) \<le> sint blockTime)"
    if acc: "fst (CheckProofOfStake env state0 pindexPrev tx blockTime nBits h t)"
  proof -
    obtain c state pindex where
      r: "reaches_kernel_check env state0 pindexPrev tx c state pindex" and
      k: "fst (CheckStakeKernelHash (Hash env) pindexPrev nBits (idx_nTime pindex)
                (nValue (out c)) (prevout (hd (vin tx))) (ucast blockTime) h t)"
      using CheckProofOfStake_accepts [OF acc] by blast
    have "\<not> ucast blockTime < idx_nTime pindex"
      using k by (auto simp: CheckStakeKernelHash_cases split: if_splits)
    then have le: "idx_nTime pindex \<le> ucast blockTime"
      by (simp add: not_less)
    have "uint (idx_nTime pindex) \<le> sint blockTime"
      if "0 \<le> sint blockTime" "sint blockTime < 2 ^ 32"
      using le uint_ucast_block_time [OF that] by (simp add: word_le_def)
    then show ?thesis
      using r le by blast
  qed
  show ?thesis
    using 1 2 by blast
qed

theorem ntime_violation_witness:
  "fst (CheckProofOfStake (one_coin_env (sample_coin stake_script OUTPUT_STANDARD 1000000000))
          sample_state sample_tip kernel_only_tx 1600000256 0x1e0fffff 0 0)
   \<and> (\<exists>c state pindex.
         reaches_kernel_check (one_coin_env (sample_coin stake_script OUTPUT_STANDARD 1000000000))
           sample_state sample_tip kernel_only_tx c state pindex
         \<and> idx_nTime pindex \<le> ucast (1600000256 :: i64))
   \<and> CheckStakeKernelHash sample_hash sample_tip 0x1e0fffff 1600000000 1000000000 kernel_prevout
        1599999999 0 0 = (False, Some ''nTime violation'', 0, 0)"
proof -
  have a: "fst (CheckProofOfStake (one_coin_env (sample_coin stake_script OUTPUT_STANDARD 1000000000))
          sample_state sample_tip kernel_only_tx 1600000256 0x1e0fffff 0 0)"
    by (simp add: sample_accept)
  have lt: "(1599999999 :: u32) < 1600000000"
    by simp
  note v = ntime_violation [where env = "one_coin_env (sample_coin stake_script OUTPUT_STANDARD 1000000000)"
      and ?state0.0 = sample_state and pindexPrev = sample_tip and tx = kernel_only_tx
      and blockTime = 1600000256 and nBits = "0x1e0fffff" and h = 0 and t = 0
      and H = sample_hash and nBlockFromTime = 1600000000 and amount = 1000000000
      and po = kernel_prevout and nTime = 1599999999]
  have b: "\<exists>c state pindex.
         reaches_kernel_check (one_coin_env (sample_coin stake_script OUTPUT_STANDARD 1000000000))
           sample_state sample_tip kernel_only_tx c state pindex
         \<and> idx_nTime pindex \<le> ucast (1600000256 :: i64)"
    using v [THEN conjunct2] a by blast
  have c: "CheckStakeKernelHash sample_hash sample_tip 0x1e0fffff 1600000000 1000000000
             kernel_prevout 1599999999 0 0 = (False, Some ''nTime violation'', 0, 0)"
    using v [THEN conjunct1] lt by blast
  show ?thesis
    using a b c by blast
qed

text \<open>
  Claim C10. When the prevout of \<open>CheckKernel\<close> resolves to an unspent Standard
  coin whose height is on the active chain and deep enough, the call reads
  through \<open>pBlockTime\<close>: it is a null dereference exactly when \<open>pBlockTime\<close> is
  null, and with a non-null \<open>pBlockTime\<close> it returns, the cell holding the time
  of the coin's block.
\<close>

theorem check_kernel_null_block_time:
  assumes "GetCoin env po = Some c" and "nType c = OUTPUT_STANDARD" and "\<not> IsSpent env c"
    and "m_chain env (nHeight c) = Some pindex"
    and "nRequiredDepth_of env pindexPrev \<le> nDepth_of pindexPrev c"
  shows "(CheckKernel env pindexPrev nBits nTime po pBlockTime = NullDereference
            \<longleftrightarrow> pBlockTime = None)
       \<and> (\<forall>old. pBlockTime = Some old \<longrightarrow>
             (\<exists>ok. CheckKernel env pindexPrev nBits nTime po pBlockTime
                     = Returns (ok, Some (ucast (idx_nTime pindex)))))"
  using assms
  by (cases pBlockTime) (auto simp: CheckKernel_def Let_def split: prod.splits)

theorem check_kernel_null_block_time_witness:
  "GetCoin (one_coin_env (sample_coin stake_script OUTPUT_STANDARD 1000000000)) kernel_prevout
     = Some (sample_coin stake_script OUTPUT_STANDARD 1000000000)
   \<and> nRequiredDepth_of (one_coin_env (sample_coin stake_script OUTPUT_STANDARD 1000000000)) sample_tip
        \<le> nDepth_of sample_tip (sample_coin stake_script OUTPUT_STANDARD 1000000000)
   \<and> CheckKernel (one_coin_env (sample_coin stake_script OUTPUT_STANDARD 1000000000)) sample_tip
        0x1e0fffff 1600000256 kernel_prevout None = NullDereference
   \<and> CheckKernel (one_coin_env (sample_coin stake_script OUTPUT_STANDARD 1000000000)) sample_tip
        0x1e0fffff 1600000256 kernel_prevout (Some 0) \<noteq> NullDereference"
proof -
  have g: "GetCoin (one_coin_env (sample_coin stake_script OUTPUT_STANDARD 1000000000)) kernel_prevout
     = Some (sample_coin stake_script OUTPUT_STANDARD 1000000000)"
    by (simp add: sample_defs)
  have ty: "nType (sample_coin stake_script OUTPUT_STANDARD 1000000000) = OUTPUT_STANDARD"
    by (simp add: sample_defs)
  have sp: "\<not> IsSpent (one_coin_env (sample_coin stake_script OUTPUT_STANDARD 1000000000))
               (sample_coin stake_script OUTPUT_STANDARD 1000000000)"
    by (simp add: sample_defs)
  have ch: "m_chain (one_coin_env (sample_coin stake_script OUTPUT_STANDARD 1000000000))
              (nHeight (sample_coin stake_script OUTPUT_STANDARD 1000000000)) = Some sample_block"
    by (simp add: sample_defs)
  have d: "nRequiredDepth_of (one_coin_env (sample_coin stake_script OUTPUT_STANDARD 1000000000)) sample_tip
        \<le> nDepth_of sample_tip (sample_coin stake_script OUTPUT_STANDARD 1000000000)"
    by (simp add: sample_defs nDepth_of_def nRequiredDepth_of_def signed_divide_int_def)
  note n = check_kernel_null_block_time [OF g ty sp ch d, where nBits = "0x1e0fffff"
      and nTime = 1600000256]
  have 1: "CheckKernel (one_coin_env (sample_coin stake_script OUTPUT_STANDARD 1000000000)) sample_tip
        0x1e0fffff 1600000256 kernel_prevout None = NullDereference"
    using n [where pBlockTime = None] by simp
  have 2: "CheckKernel (one_coin_env (sample_coin stake_script OUTPUT_STANDARD 1000000000)) sample_tip
        0x1e0fffff 1600000256 kernel_prevout (Some 0) \<noteq> NullDereference"
    using n [where pBlockTime = "Some 0"] by simp
  show ?thesis
    using g d 1 2 by blast
qed

end
